theory Spec2Isabelle
  imports Main "HOL-Library.Word"
begin

section \<open>Data model of the download engine\<close>

text \<open>
  The engine is a Qt program. Its integers (\<open>int\<close>, \<open>qint64\<close>) are modelled as
  \<open>int\<close>; the one division is written out as the truncating division of C++, and the
  one product that can leave 64 bits, a speed cap times a time, is taken with its
  wrap-around. Byte arrays are lists of 8-bit words; the file system is a map from a
  path to the size of the file stored there; a network reply is a handle, an open file a
  flag.
  A member function becomes a function from the object's state (and the file system,
  where it touches it) to the new state together with the effects it produced in order:
  the signals it emitted and the single-shot timers it armed. Slots connected to a signal
  are separate functions of their own and are not run inside the emitting function, but
  for the manager's handler of \<open>finished\<close>: \<open>cancelAll\<close>, the handler itself and its retry
  timer run it for the \<open>finished\<close> a task emits inside them.
  Aborting a reply is modelled by dropping its handle; what Qt delivers from inside
  \<open>abort\<close> is outside the model. What the code reads from its environment (the clock,
  the validity of a URL, the outcome of opening or writing a file) is a parameter.
\<close>

type_synonym bytes = "8 word list"

type_synonym filesys = "string \<Rightarrow> int option"

datatype State = Idle | Downloading | Paused | Finished | Canceled

record Segment =
  seg_start :: int
  seg_end :: int
  tempFilePath :: string
  downloaded :: int
  buffer :: bytes
  processing :: bool
  seg_file :: bool
  seg_reply :: "nat option"

record task =
  m_url :: string
  m_filePath :: string
  m_segments :: int
  m_state :: State
  m_anyError :: bool
  m_totalSize :: int
  m_useRange :: bool
  m_serverSupportsRange :: bool
  m_etag :: string
  m_lastModified :: string
  m_mirrorUrls :: "string list"
  m_mirrorIndex :: int
  m_segmentsInfo :: "Segment list"
  m_headReply :: bool
  m_singleReply :: "nat option"
  m_singleFile :: bool
  m_singleBuffer :: bytes
  m_singleProcessing :: bool
  m_singleWritten :: int
  m_resumeSingle :: bool
  m_useSingleTemp :: bool
  m_singleTempPath :: string
  m_maxSpeed :: int
  m_throttleTimer :: int
  m_throttleBytes :: int
  m_pauseReason :: string
  m_pausedAt :: int
  m_retryMax :: int
  m_retryDelaySec :: int
  m_resumeWarning :: string

text \<open>Signals of a task, deferred calls handed to \<open>QTimer::singleShot\<close>, and the
  effects a member function leaves behind, in program order.\<close>

datatype signal =
  stateChanged
  | finished bool
  | progress int int
  | pauseReasonChanged
  | pausedAtChanged
  | mirrorIndexChanged
  | resumeWarningChanged

datatype callback =
  RetrySingleBuffer
  | ProcessSingleBuffer
  | ProcessSegmentBuffer nat
  | RestartSingleStream
  | FallBackToSingleStream

datatype effect = Emit signal | SingleShot int callback

section \<open>Queues and the schedule window\<close>

text \<open>\<open>QueueInfo\<close> as the manager uses it; \<open>QTime\<close> by its hour and minute.\<close>

record QueueInfo =
  name :: string
  maxConcurrent :: int
  maxSpeed :: int
  scheduleEnabled :: bool
  startMinutes :: int
  endMinutes :: int
  quotaEnabled :: bool
  quotaBytes :: int
  downloadedToday :: int

record QTime =
  hour :: int
  minute :: int

definition isWithinSchedule :: "QueueInfo \<Rightarrow> QTime \<Rightarrow> bool" where
  "isWithinSchedule info now =
     (if \<not> scheduleEnabled info then True
      else let start = startMinutes info;
               end' = endMinutes info;
               current = hour now * 60 + minute now
           in if start = end' then True
              else if start < end' then current \<ge> start \<and> current < end'
              else current \<ge> start \<or> current < end')"

definition isQueueAllowed :: "QueueInfo \<Rightarrow> QTime \<Rightarrow> bool" where
  "isQueueAllowed info now =
     (if scheduleEnabled info \<and> \<not> isWithinSchedule info now then False
      else if quotaEnabled info \<and> quotaBytes info > 0
              \<and> downloadedToday info \<ge> quotaBytes info then False
      else True)"

section \<open>Text helpers\<close>

text \<open>\<open>QString::arg(int)\<close> on a non-negative number prints it in decimal;
  \<open>QByteArray::toLower\<close> lowers the ASCII capitals.\<close>

definition digitChar :: "nat \<Rightarrow> char" where
  "digitChar d =
     (if d = 0 then CHR ''0'' else if d = 1 then CHR ''1'' else if d = 2 then CHR ''2''
      else if d = 3 then CHR ''3'' else if d = 4 then CHR ''4'' else if d = 5 then CHR ''5''
      else if d = 6 then CHR ''6'' else if d = 7 then CHR ''7'' else if d = 8 then CHR ''8''
      else CHR ''9'')"

fun decimal :: "nat \<Rightarrow> string" where
  "decimal n = (if n < 10 then [digitChar n] else decimal (n div 10) @ [digitChar (n mod 10)])"

declare decimal.simps [simp del]

definition toLowerChar :: "char \<Rightarrow> char" where
  "toLowerChar c =
     (case map_of (zip ''ABCDEFGHIJKLMNOPQRSTUVWXYZ'' ''abcdefghijklmnopqrstuvwxyz'') c of
        Some d \<Rightarrow> d
      | None \<Rightarrow> c)"

definition toLower :: "string \<Rightarrow> string" where
  "toLower s = map toLowerChar s"

text \<open>\<open>QString::arg\<close> replaces every occurrence of the lowest-numbered place marker of
  the string by its argument and leaves a string without a marker as it is. A place
  marker is a percent sign, an optional \<open>L\<close>, and one or two decimal digits. A chain of
  calls scans the result of the call before it, the text just inserted included.\<close>

definition digitValue :: "char \<Rightarrow> nat option" where
  "digitValue c = map_of (zip ''0123456789'' [0, 1, 2, 3, 4, 5, 6, 7, 8, 9]) c"

datatype piece = Plain char | Marker nat string

text \<open>\<open>markerAt s\<close> reads a place marker from the text \<open>s\<close> that follows a percent
  sign: its number, its text and the rest of the string.\<close>

definition markerAt :: "string \<Rightarrow> (nat \<times> string \<times> string) option" where
  "markerAt s =
     (let loc = (s \<noteq> [] \<and> hd s = CHR ''L'');
          pre = (if loc then ''L'' else []);
          s1 = (if loc then tl s else s)
      in case s1 of
           [] \<Rightarrow> None
         | c # r \<Rightarrow>
             (case digitValue c of
                None \<Rightarrow> None
              | Some d \<Rightarrow>
                  (case r of
                     [] \<Rightarrow> Some (d, pre @ [c], [])
                   | c2 # r2 \<Rightarrow>
                       (case digitValue c2 of
                          None \<Rightarrow> Some (d, pre @ [c], r)
                        | Some d2 \<Rightarrow> Some (10 * d + d2, pre @ [c, c2], r2)))))"

lemma markerAt_rest: "markerAt s = Some (n, txt, rest) \<Longrightarrow> length rest \<le> length s"
  by (cases s) (auto simp: markerAt_def Let_def split: list.splits option.splits if_splits)

function pieces :: "string \<Rightarrow> piece list" where
  "pieces [] = []"
| "pieces (c # s) =
     (if c = CHR ''%''
      then (case markerAt s of
              None \<Rightarrow> Plain c # pieces s
            | Some (n, txt, rest) \<Rightarrow> Marker n (c # txt) # pieces rest)
      else Plain c # pieces s)"
  by pat_completeness auto
termination
  by (relation "measure length") (auto dest: markerAt_rest)

definition qarg :: "string \<Rightarrow> string \<Rightarrow> string" where
  "qarg s a =
     (let ps = pieces s;
          ns = concat (map (\<lambda>p. case p of Plain c \<Rightarrow> [] | Marker n txt \<Rightarrow> [n]) ps)
      in if ns = [] then s
         else let lowest = fold min ns (hd ns)
              in concat (map (\<lambda>p. case p of
                                     Plain c \<Rightarrow> [c]
                                   | Marker n txt \<Rightarrow> if n = lowest then a else txt) ps))"

text \<open>The part file of segment \<open>i\<close>: \<open>QString("%1.part%2").arg(m_filePath).arg(i)\<close>.\<close>

definition partPath :: "string \<Rightarrow> int \<Rightarrow> string" where
  "partPath filePath i = qarg (qarg ''%1.part%2'' filePath) (decimal (nat i))"

text \<open>\<open>QFile::exists\<close>, \<open>QFileInfo::size\<close> and \<open>QFile::remove\<close> on the file system.\<close>

definition exists :: "filesys \<Rightarrow> string \<Rightarrow> bool" where
  "exists fs p = (fs p \<noteq> None)"

definition fileSize :: "filesys \<Rightarrow> string \<Rightarrow> int" where
  "fileSize fs p = (case fs p of None \<Rightarrow> 0 | Some n \<Rightarrow> n)"

definition remove :: "filesys \<Rightarrow> string \<Rightarrow> filesys" where
  "remove fs p = fs(p := None)"

section \<open>DownloaderTask\<close>

definition currentUrl :: "task \<Rightarrow> string" where
  "currentUrl t =
     (if m_mirrorUrls t \<noteq> [] \<and> m_mirrorIndex t \<ge> 0
         \<and> m_mirrorIndex t < int (length (m_mirrorUrls t))
      then m_mirrorUrls t ! nat (m_mirrorIndex t)
      else m_url t)"

definition totalDownloaded :: "task \<Rightarrow> int" where
  "totalDownloaded t = sum_list (map downloaded (m_segmentsInfo t)) + m_singleWritten t"

definition stateString :: "task \<Rightarrow> string" where
  "stateString t =
     (if m_anyError t \<and> m_state t = Finished then ''Error''
      else case m_state t of
             Idle \<Rightarrow> ''Queued''
           | Downloading \<Rightarrow> ''Active''
           | Paused \<Rightarrow> ''Paused''
           | Finished \<Rightarrow> ''Done''
           | Canceled \<Rightarrow> ''Canceled'')"

subsection \<open>start: the synchronous part\<close>

text \<open>What \<open>start\<close> reads from the disk before it issues the HEAD request, and hands to
  the handler of the reply.\<close>

definition hasExistingFile :: "task \<Rightarrow> filesys \<Rightarrow> bool" where
  "hasExistingFile t fs = (exists fs (m_filePath t) \<and> fileSize fs (m_filePath t) > 0)"

definition hasPartialSegments :: "task \<Rightarrow> filesys \<Rightarrow> bool" where
  "hasPartialSegments t fs =
     (m_segments t > 1
      \<and> list_ex (\<lambda>i. exists fs (partPath (m_filePath t) (int i))) [0..<nat (m_segments t)])"

text \<open>\<open>start\<close> takes the validity test of \<open>QUrl\<close> and the clock in milliseconds. It
  returns the task and the effects; a HEAD request is in flight afterwards exactly when
  \<open>m_headReply\<close> is set. The log and the speed statistics of a task are left out
  throughout.\<close>

definition start :: "(string \<Rightarrow> bool) \<Rightarrow> int \<Rightarrow> task \<Rightarrow> task \<times> effect list" where
  "start valid now t =
     (if m_state t \<noteq> Idle then (t, [])
      else
        let e1 = (if m_pauseReason t \<noteq> [] then [Emit pauseReasonChanged] else []);
            e2 = (if m_pausedAt t \<noteq> 0 then [Emit pausedAtChanged] else []);
            t1 = t\<lparr>m_pauseReason := [], m_pausedAt := 0,
                   m_throttleTimer := now, m_throttleBytes := 0\<rparr>
        in if \<not> valid (currentUrl t1)
           then (t1\<lparr>m_anyError := True, m_state := Finished\<rparr>,
                 e1 @ e2 @ [Emit stateChanged, Emit (finished False)])
           else (t1\<lparr>m_anyError := False, m_state := Downloading, m_headReply := True\<rparr>,
                 e1 @ e2 @ [Emit stateChanged]))"

subsection \<open>The HEAD reply and the segmentation decision\<close>

record HeadReply =
  hr_error :: bool
  hr_ETag :: string
  hr_LastModified :: string
  hr_ContentLength :: "int option"
  hr_AcceptRanges :: string

text \<open>What the handler of the HEAD reply goes on to do.\<close>

datatype plan = NoPlan | SingleStream bool | Segmented int

definition segCountFor :: "int \<Rightarrow> int \<Rightarrow> int" where
  "segCountFor totalSize segments =
     (if totalSize > 0 then
        (if totalSize < 4 * 1024 * 1024 then 1
         else if totalSize < 32 * 1024 * 1024 then min 2 segments
         else if totalSize < 128 * 1024 * 1024 then min 4 segments
         else segments)
      else segments)"

definition onHeadFinished :: "task \<Rightarrow> HeadReply \<Rightarrow> bool \<Rightarrow> task \<times> plan" where
  "onHeadFinished t r hasExisting =
     (let t1 = t\<lparr>m_headReply := False\<rparr> in
      if m_state t1 \<noteq> Downloading then (t1, NoPlan)
      else if hr_error r
      then (t1\<lparr>m_totalSize := 0, m_useRange := True\<rparr>, SingleStream hasExisting)
      else
        let t2 = t1\<lparr>m_etag := (if hr_ETag r \<noteq> [] then hr_ETag r else m_etag t1),
                    m_lastModified := (if hr_LastModified r \<noteq> [] then hr_LastModified r
                                       else m_lastModified t1)\<rparr>
        in case hr_ContentLength r of
             None \<Rightarrow> (t2\<lparr>m_totalSize := 0, m_useRange := False\<rparr>, SingleStream False)
           | Some cl \<Rightarrow>
               if cl \<le> 0
               then (t2\<lparr>m_totalSize := 0, m_useRange := False\<rparr>, SingleStream False)
               else
                 let t3 = t2\<lparr>m_totalSize := cl\<rparr>;
                     t4 = (if toLower (hr_AcceptRanges r) \<noteq> ''bytes''
                           then t3\<lparr>m_useRange := False, m_serverSupportsRange := False\<rparr>
                           else t3\<lparr>m_serverSupportsRange := True\<rparr>)
                 in if \<not> m_useRange t4 \<or> m_segments t4 = 1
                    then (t4, SingleStream hasExisting)
                    else (t4, Segmented (segCountFor (m_totalSize t4) (m_segments t4))))"

subsection \<open>Laying out the segments\<close>

definition mkSegment :: "task \<Rightarrow> bool \<Rightarrow> int \<Rightarrow> int \<Rightarrow> int \<Rightarrow> filesys \<Rightarrow> Segment \<times> filesys" where
  "mkSegment t hasPartial segCount segSize i fs =
     (let st = i * segSize;
          en = (if i = segCount - 1 then m_totalSize t - 1 else (i + 1) * segSize - 1);
          p = partPath (m_filePath t) i;
          s = \<lparr>seg_start = st, seg_end = en, tempFilePath = p, downloaded = 0,
               buffer = [], processing = False, seg_file = False, seg_reply = None\<rparr>
      in if hasPartial \<and> exists fs p
         then (s\<lparr>downloaded := min (fileSize fs p) (en - st + 1)\<rparr>, fs)
         else (s, remove fs p))"

primrec prepareLoop :: "task \<Rightarrow> bool \<Rightarrow> int \<Rightarrow> int \<Rightarrow> int list \<Rightarrow> filesys \<Rightarrow> Segment list \<times> filesys" where
  "prepareLoop t hasPartial segCount segSize [] fs = ([], fs)"
| "prepareLoop t hasPartial segCount segSize (i # rest) fs =
     (let (s, fs1) = mkSegment t hasPartial segCount segSize i fs;
          (ss, fs2) = prepareLoop t hasPartial segCount segSize rest fs1
      in (s # ss, fs2))"

text \<open>The segmented branch of the handler, from \<open>m_segmentsInfo.clear()\<close> to the removal
  of the part files beyond the effective segment count.\<close>

definition prepareSegments :: "task \<Rightarrow> bool \<Rightarrow> int \<Rightarrow> filesys \<Rightarrow> task \<times> filesys" where
  "prepareSegments t hasPartial segCount fs =
     (let segSize = m_totalSize t div segCount;
          (ss, fs1) = prepareLoop t hasPartial segCount segSize
                        (map int [0..<nat segCount]) fs;
          fs2 = foldl (\<lambda>f i. remove f (partPath (m_filePath t) i)) fs1
                  (map int [nat segCount..<nat (m_segments t)])
      in (t\<lparr>m_segmentsInfo := ss\<rparr>, fs2))"


subsection \<open>The single stream\<close>



definition setResumeWarning :: "task \<Rightarrow> string \<Rightarrow> task \<times> effect list" where
  "setResumeWarning t warning =
     (if m_resumeWarning t = warning then (t, [])
      else (t\<lparr>m_resumeWarning := warning\<rparr>, [Emit resumeWarningChanged]))"

text \<open>The \<open>metaDataChanged\<close> handler of the single-stream reply \<open>h\<close>; \<open>existingSize\<close>
  is the value captured when the request was made, \<open>reopenOk\<close> whether the file can be
  reopened for the restart.\<close>

definition onSingleMetaDataChanged ::
  "task \<Rightarrow> nat \<Rightarrow> int \<Rightarrow> string \<Rightarrow> string \<Rightarrow> int \<Rightarrow> bool \<Rightarrow> filesys \<Rightarrow> task \<times> filesys \<times> effect list" where
  "onSingleMetaDataChanged t h status etag lastMod existingSize reopenOk fs =
     (if m_singleReply t \<noteq> Some h then (t, fs, [])
      else
        let t1 = t\<lparr>m_etag := (if etag \<noteq> [] then etag else m_etag t),
                   m_lastModified := (if lastMod \<noteq> [] then lastMod else m_lastModified t)\<rparr>;
            t2 = (if status = 206 then t1\<lparr>m_serverSupportsRange := True\<rparr>
                  else if status = 200 then t1\<lparr>m_serverSupportsRange := False\<rparr>
                  else t1)
        in if \<not> m_resumeSingle t2 then (t2, fs, [])
           else if status \<ge> 400 then
             (let t3 = t2\<lparr>m_singleReply := None, m_singleFile := False,
                         m_resumeSingle := False, m_singleWritten := 0\<rparr>;
                  (t4, es) = setResumeWarning t3 ''Resume rejected; restarting''
              in (t4, fs, es @ [SingleShot 0 RestartSingleStream]))
           else if status \<noteq> 206 then
             (let fs1 = (if m_singleFile t2 \<and> reopenOk then fs(m_singleTempPath t2 \<mapsto> 0) else fs);
                  t3 = t2\<lparr>m_resumeSingle := False, m_singleWritten := 0\<rparr>
              in if existingSize > 0
                 then (let (t4, es) = setResumeWarning t3 ''Resume not supported; restarted''
                       in (t4, fs1, es))
                 else (t3, fs1, []))
           else (t2, fs, []))"

subsection \<open>The throttled write processors\<close>

text \<open>Integer division of C++ truncates towards zero.\<close>

definition tdiv :: "int \<Rightarrow> int \<Rightarrow> int" where
  "tdiv a b = sgn a * sgn b * (\<bar>a\<bar> div \<bar>b\<bar>)"

text \<open>The speed cap, the reading of the timer and the window counter are \<open>qint64\<close>.
  The product of the cap and the reading can leave the range of that type; the result
  of an operation is therefore taken in 64-bit two's complement arithmetic, which is what
  the compiled code computes.\<close>

definition fits64 :: "int \<Rightarrow> bool" where
  "fits64 x = (- (2 ^ 63) \<le> x \<and> x < 2 ^ 63)"

definition wrap64 :: "int \<Rightarrow> int" where
  "wrap64 x = (x + 2 ^ 63) mod 2 ^ 64 - 2 ^ 63"

text \<open>The budget both processors compute from the reading of the throttle timer and the
  length of their buffer: \<open>m_maxSpeed * elapsedMs / 1000 - m_throttleBytes\<close>.\<close>

definition allowedBytes :: "task \<Rightarrow> int \<Rightarrow> int \<Rightarrow> int" where
  "allowedBytes t elapsed bufferSize =
     (let elapsedMs = (if elapsed = 0 then 1 else elapsed)
      in if m_maxSpeed t > 0
         then wrap64 (tdiv (wrap64 (m_maxSpeed t * elapsedMs)) 1000 - m_throttleBytes t)
         else bufferSize)"

text \<open>A processor reads the clock twice (\<open>now1\<close>, \<open>now2\<close>); \<open>m_throttleTimer\<close> holds the
  time at which the window started. \<open>wr n\<close> is what \<open>QFile::write\<close> returns when asked
  for \<open>n\<close> bytes: the number of bytes written, or -1.\<close>

definition resetWindow :: "task \<Rightarrow> int \<Rightarrow> task" where
  "resetWindow t now2 =
     (if now2 - m_throttleTimer t \<ge> 1000
      then t\<lparr>m_throttleTimer := now2, m_throttleBytes := 0\<rparr>
      else t)"

definition processSingleBuffer ::
  "task \<Rightarrow> filesys \<Rightarrow> int \<Rightarrow> (int \<Rightarrow> int) \<Rightarrow> int \<Rightarrow> task \<times> filesys \<times> effect list" where
  "processSingleBuffer t fs now1 wr now2 =
     (if \<not> m_singleFile t then (t, fs, [])
      else if m_singleProcessing t then (t, fs, [])
      else if m_singleBuffer t = [] then (t, fs, [])
      else if m_state t \<noteq> Downloading then (t, fs, [])
      else
        let t1 = t\<lparr>m_singleProcessing := True\<rparr>;
            allowed = allowedBytes t1 (now1 - m_throttleTimer t1) (int (length (m_singleBuffer t1)))
        in if allowed \<le> 0 then (t1, fs, [SingleShot 50 RetrySingleBuffer])
           else
             let toWrite = min allowed (int (length (m_singleBuffer t1)));
                 written = wr toWrite;
                 t2 = (if written > 0
                       then t1\<lparr>m_singleBuffer := drop (nat written) (m_singleBuffer t1),
                               m_throttleBytes := m_throttleBytes t1 + written,
                               m_singleWritten := m_singleWritten t1 + written\<rparr>
                       else t1);
                 fs1 = (if written > 0
                        then fs(m_singleTempPath t1 \<mapsto> fileSize fs (m_singleTempPath t1) + written)
                        else fs);
                 t3 = resetWindow t2 now2;
                 t4 = t3\<lparr>m_singleProcessing := False\<rparr>
             in (t4, fs1,
                 Emit (progress (totalDownloaded t3) (m_totalSize t3))
                 # (if m_singleBuffer t4 \<noteq> [] then [SingleShot 10 ProcessSingleBuffer] else [])))"

text \<open>The timer armed by a single-stream run that had no budget.\<close>

definition retrySingleBuffer ::
  "task \<Rightarrow> filesys \<Rightarrow> int \<Rightarrow> (int \<Rightarrow> int) \<Rightarrow> int \<Rightarrow> task \<times> filesys \<times> effect list" where
  "retrySingleBuffer t fs now1 wr now2 =
     processSingleBuffer (t\<lparr>m_singleProcessing := False\<rparr>) fs now1 wr now2"

text \<open>The segment is given by its position in \<open>m_segmentsInfo\<close>.\<close>

definition processSegmentBuffer ::
  "task \<Rightarrow> nat \<Rightarrow> filesys \<Rightarrow> int \<Rightarrow> (int \<Rightarrow> int) \<Rightarrow> int \<Rightarrow> task \<times> filesys \<times> effect list" where
  "processSegmentBuffer t i fs now1 wr now2 =
     (if i \<ge> length (m_segmentsInfo t) then (t, fs, [])
      else
        let s = m_segmentsInfo t ! i in
        if \<not> seg_file s then (t, fs, [])
        else if processing s then (t, fs, [])
        else if buffer s = [] then (t, fs, [])
        else if m_state t \<noteq> Downloading then (t, fs, [])
        else
          let allowed = allowedBytes t (now1 - m_throttleTimer t) (int (length (buffer s)))
          in if allowed \<le> 0 then (t, fs, [SingleShot 50 (ProcessSegmentBuffer i)])
             else
               let toWrite = min allowed (int (length (buffer s)));
                   written = wr toWrite;
                   s1 = (if written > 0
                         then s\<lparr>buffer := drop (nat written) (buffer s),
                                downloaded := downloaded s + written\<rparr>
                         else s);
                   t1 = (if written > 0
                         then t\<lparr>m_throttleBytes := m_throttleBytes t + written\<rparr>
                         else t);
                   fs1 = (if written > 0
                          then fs(tempFilePath s \<mapsto> fileSize fs (tempFilePath s) + written)
                          else fs);
                   t2 = resetWindow (t1\<lparr>m_segmentsInfo := (m_segmentsInfo t1)[i := s1]\<rparr>) now2
               in (t2, fs1,
                   Emit (progress (totalDownloaded t2) (m_totalSize t2))
                   # (if buffer s1 \<noteq> [] then [SingleShot 10 (ProcessSegmentBuffer i)] else [])))"

text \<open>The budget as the specification words it: \<open>maxSpeed * elapsedInWindow / 1000 -
  bytesInWindow\<close>, or the whole buffer when the speed is unlimited.\<close>

definition spec_allowed :: "int \<Rightarrow> int \<Rightarrow> int \<Rightarrow> int \<Rightarrow> int" where
  "spec_allowed maxSpeed' elapsedInWindow bytesInWindow bufferSize =
     (if maxSpeed' = 0 then bufferSize
      else tdiv (maxSpeed' * elapsedInWindow) 1000 - bytesInWindow)"

subsection \<open>pause, resume, cancel, cleanup, restart\<close>

text \<open>What \<open>pause\<close> and \<open>cleanup\<close> do to every segment: the reply is disconnected and
  aborted, the file closed, the buffer dropped.\<close>

definition closeSegment :: "Segment \<Rightarrow> Segment" where
  "closeSegment s = s\<lparr>seg_reply := None, seg_file := False, buffer := [], processing := False\<rparr>"

definition pause :: "int \<Rightarrow> task \<Rightarrow> task \<times> effect list" where
  "pause nowMs t =
     (if m_state t \<noteq> Downloading then (t, [])
      else
        let e1 = (if m_pauseReason t = [] then [Emit pauseReasonChanged] else []);
            t1 = (if m_pauseReason t = [] then t\<lparr>m_pauseReason := ''User''\<rparr> else t);
            e2 = (if m_pausedAt t1 \<noteq> nowMs then [Emit pausedAtChanged] else [])
        in (t1\<lparr>m_state := Paused, m_pausedAt := nowMs,
                m_segmentsInfo := map closeSegment (m_segmentsInfo t1),
                m_headReply := False, m_singleReply := None, m_singleFile := False,
                m_singleBuffer := [], m_singleProcessing := False\<rparr>,
            e1 @ [Emit stateChanged] @ e2))"

definition pauseWithReason :: "int \<Rightarrow> string \<Rightarrow> task \<Rightarrow> task \<times> effect list" where
  "pauseWithReason nowMs reason t =
     (if m_state t \<noteq> Downloading then (t, [])
      else
        let e1 = (if m_pauseReason t \<noteq> reason then [Emit pauseReasonChanged] else []);
            (t1, e2) = pause nowMs (t\<lparr>m_pauseReason := reason\<rparr>)
        in (t1, e1 @ e2))"

definition resume :: "(string \<Rightarrow> bool) \<Rightarrow> int \<Rightarrow> task \<Rightarrow> task \<times> effect list" where
  "resume valid now t =
     (if m_state t \<noteq> Paused then (t, [])
      else
        let e1 = (if m_pauseReason t \<noteq> [] then [Emit pauseReasonChanged] else []);
            (t1, e2) = start valid now (t\<lparr>m_pauseReason := [], m_state := Idle\<rparr>)
        in (t1, e1 @ e2))"

definition cleanup :: "task \<Rightarrow> filesys \<Rightarrow> bool \<Rightarrow> task \<times> filesys \<times> effect list" where
  "cleanup t fs emitFinished =
     (let fs1 = foldl (\<lambda>f s. remove f (tempFilePath s)) fs (m_segmentsInfo t);
          t1 = t\<lparr>m_segmentsInfo := map (\<lambda>s. (closeSegment s)\<lparr>downloaded := 0\<rparr>) (m_segmentsInfo t),
                 m_singleFile := False, m_singleReply := None, m_headReply := False,
                 m_singleBuffer := [], m_singleProcessing := False, m_singleWritten := 0\<rparr>;
          fs2 = (if m_useSingleTemp t \<and> m_singleTempPath t \<noteq> []
                 then remove fs1 (m_singleTempPath t)
                 else remove fs1 (m_filePath t))
      in (t1, fs2, if emitFinished then [Emit (finished False)] else []))"

definition cancel :: "task \<Rightarrow> filesys \<Rightarrow> task \<times> filesys \<times> effect list" where
  "cancel t fs =
     (if m_state t = Finished \<or> m_state t = Canceled then (t, fs, [])
      else
        let e1 = (if m_pauseReason t \<noteq> [] then [Emit pauseReasonChanged] else []);
            e2 = (if m_pausedAt t \<noteq> 0 then [Emit pausedAtChanged] else []);
            (t1, fs1, e3) = cleanup (t\<lparr>m_state := Canceled, m_pauseReason := [], m_pausedAt := 0\<rparr>)
                              fs True
        in (t1, fs1, [Emit stateChanged] @ e1 @ e2 @ e3))"

definition restart :: "(string \<Rightarrow> bool) \<Rightarrow> int \<Rightarrow> task \<Rightarrow> filesys \<Rightarrow> task \<times> filesys \<times> effect list" where
  "restart valid now t fs =
     (let (t1, fs1, e1) = cleanup t fs False;
          (t2, e2) = start valid now (t1\<lparr>m_state := Idle\<rparr>)
      in (t2, fs1, e1 @ [Emit stateChanged] @ e2))"

subsection \<open>Completion\<close>

text \<open>\<open>mergeSegments\<close> on file sizes: the output is opened truncated (\<open>outOk\<close> tells
  whether that succeeds), every part is appended in order and removed; a part that cannot
  be opened stops the merge and leaves the remaining parts in place.\<close>

primrec mergeLoop :: "string \<Rightarrow> Segment list \<Rightarrow> filesys \<Rightarrow> bool \<times> filesys" where
  "mergeLoop out [] fs = (True, fs)"
| "mergeLoop out (s # ss) fs =
     (case fs (tempFilePath s) of
        None \<Rightarrow> (False, fs)
      | Some n \<Rightarrow> mergeLoop out ss
                   ((fs(out \<mapsto> fileSize fs out + n))(tempFilePath s := None)))"

definition mergeSegments :: "task \<Rightarrow> filesys \<Rightarrow> bool \<Rightarrow> bool \<times> filesys" where
  "mergeSegments t fs outOk =
     (if \<not> outOk then (False, fs)
      else mergeLoop (m_filePath t) (m_segmentsInfo t) (fs(m_filePath t \<mapsto> 0)))"

definition onSegmentFinished :: "task \<Rightarrow> filesys \<Rightarrow> bool \<Rightarrow> task \<times> filesys \<times> effect list" where
  "onSegmentFinished t fs outOk =
     (if m_state t \<noteq> Downloading then (t, fs, [])
      else if list_ex (\<lambda>s. downloaded s < seg_end s - seg_start s + 1) (m_segmentsInfo t)
      then (t, fs, [])
      else if m_anyError t
      then (t\<lparr>m_state := Finished\<rparr>, fs, [Emit stateChanged, Emit (finished False)])
      else
        let (ok, fs1) = mergeSegments t fs outOk
        in if \<not> ok
           then (t\<lparr>m_anyError := True, m_state := Finished\<rparr>, fs1,
                 [Emit stateChanged, Emit (finished False)])
           else (t\<lparr>m_state := Finished\<rparr>, fs1, [Emit stateChanged, Emit (finished True)]))"

text \<open>The \<open>finished\<close> handler of the single-stream reply \<open>h\<close>; \<open>replyError\<close> tells
  whether the reply ended with an error. Renaming the temporary file fails when it is
  not there.\<close>

definition onSingleFinished ::
  "task \<Rightarrow> nat \<Rightarrow> bool \<Rightarrow> filesys \<Rightarrow> int \<Rightarrow> (int \<Rightarrow> int) \<Rightarrow> int \<Rightarrow> task \<times> filesys \<times> effect list" where
  "onSingleFinished t h replyError fs now1 wr now2 =
     (if m_singleReply t \<noteq> Some h then (t, fs, [])
      else
        let t1 = (if m_state t = Downloading \<and> replyError then t\<lparr>m_anyError := True\<rparr> else t);
            (t2, fs1, e1) = (if \<not> m_singleProcessing t1 \<and> m_singleBuffer t1 \<noteq> []
                             then processSingleBuffer t1 fs now1 wr now2
                             else (t1, fs, []));
            t3 = t2\<lparr>m_singleFile := False, m_singleReply := None\<rparr>
        in if m_state t3 = Paused \<or> m_state t3 = Canceled then (t3, fs1, e1)
           else
             let (t4, fs2) =
                   (if m_useSingleTemp t3 \<and> m_singleTempPath t3 \<noteq> []
                       \<and> m_singleTempPath t3 \<noteq> m_filePath t3
                    then (case fs1 (m_singleTempPath t3) of
                            None \<Rightarrow> (t3\<lparr>m_anyError := True\<rparr>, remove fs1 (m_filePath t3))
                          | Some n \<Rightarrow> (t3, (fs1(m_filePath t3 \<mapsto> n))(m_singleTempPath t3 := None)))
                    else (t3, fs1))
             in (t4\<lparr>m_state := Finished\<rparr>, fs2,
                 e1 @ [Emit stateChanged, Emit (finished (\<not> m_anyError t4))]))"

subsection \<open>Mirrors\<close>

text \<open>\<open>advanceMirror\<close> returns whether it moved to a next mirror. (The setters keep
  \<open>m_mirrorIndex\<close> at 0 or above.)\<close>

definition advanceMirror :: "(string \<Rightarrow> bool) \<Rightarrow> task \<Rightarrow> bool \<times> task \<times> effect list" where
  "advanceMirror valid t =
     (if m_mirrorUrls t = [] then (False, t, [])
      else if m_mirrorIndex t + 1 \<ge> int (length (m_mirrorUrls t)) then (False, t, [])
      else
        let t1 = t\<lparr>m_mirrorIndex := m_mirrorIndex t + 1\<rparr>;
            nextUrl = m_mirrorUrls t1 ! nat (m_mirrorIndex t1);
            t2 = (if valid nextUrl
                  then t1\<lparr>m_url := nextUrl, m_etag := [], m_lastModified := []\<rparr>
                  else t1)
        in (True, t2, [Emit mirrorIndexChanged]))"

subsection \<open>Reading the effects\<close>

fun isFinishedSignal :: "effect \<Rightarrow> bool" where
  "isFinishedSignal (Emit (finished b)) = True"
| "isFinishedSignal _ = False"

definition emitsFinished :: "effect list \<Rightarrow> bool" where
  "emitsFinished es = list_ex isFinishedSignal es"

section \<open>DownloadManager\<close>

text \<open>
  The manager keeps its tasks in \<open>m_queue\<close> and what it knows about each of them in
  hashes keyed by the task; here an entry of \<open>m_queue\<close> carries the task together with
  its values in those hashes (\<open>None\<close> where the hash has no entry), and a task is named
  by its position. A function of the manager runs the member functions it calls on a
  task and returns what follows from them as events in program order: the signals of the
  tasks, which Qt delivers to the connected slots, the manager's own signals and toasts,
  the timers it arms, and its calls of \<open>updateTotals\<close>, \<open>scheduleSave\<close> and, from the
  finished handler, \<open>startQueued\<close>.
\<close>

record entry =
  taskOf :: task
  taskQueue :: "string option"
  taskMaxSpeed :: "int option"
  taskSpeed :: "int option"
  taskCompletedAt :: "int option"
  taskRetryCount :: "int option"

record manager =
  m_queue :: "entry list"
  m_queues :: "string \<Rightarrow> QueueInfo option"
  m_queueOrder :: "string list"
  m_maxConcurrent :: int
  m_globalMaxSpeed :: int
  m_autoRetryMax :: int
  m_autoRetryDelaySec :: int
  m_pauseOnBattery :: bool
  m_onBattery :: bool
  m_bulkCancelInProgress :: bool

datatype event =
  TaskSignal nat signal
  | Toast string
  | countsChanged
  | queuesChanged
  | UpdateTotals
  | ScheduleSave
  | StartQueued
  | ApplyPostActions nat
  | RetryTimer int nat

definition signalsOf :: "nat \<Rightarrow> effect list \<Rightarrow> event list" where
  "signalsOf i es = concat (map (\<lambda>e. case e of Emit sg \<Rightarrow> [TaskSignal i sg] | SingleShot d c \<Rightarrow> []) es)"

text \<open>Modelled from the spec: \<open>isRunning\<close> is declared in the module interface of the
  task, which is not among the sources; a task is running in the state Downloading.\<close>

definition isRunning :: "task \<Rightarrow> bool" where
  "isRunning t = (m_state t = Downloading)"

text \<open>Modelled from the spec: \<open>isIdle\<close>, declared in the same interface; a task is idle
  in the state Idle.\<close>

definition isIdle :: "task \<Rightarrow> bool" where
  "isIdle t = (m_state t = Idle)"

text \<open>Modelled from the spec: \<open>setMaxSpeed\<close>, declared in the same interface, stores the
  effective speed cap of the task (bytes per second, 0 for no limit).\<close>

definition setMaxSpeed :: "task \<Rightarrow> int \<Rightarrow> task" where
  "setMaxSpeed t v = t\<lparr>m_maxSpeed := v\<rparr>"

text \<open>\<open>QString::trimmed\<close> strips white space from both ends.\<close>

definition isSpace :: "char \<Rightarrow> bool" where
  "isSpace c = (c \<in> set [CHR 0x20, CHR 0x09, CHR 0x0A, CHR 0x0B, CHR 0x0C, CHR 0x0D])"

definition trimmed :: "string \<Rightarrow> string" where
  "trimmed s = rev (dropWhile isSpace (rev (dropWhile isSpace s)))"

definition defaultQueueName :: "manager \<Rightarrow> string" where
  "defaultQueueName m = (if m_queueOrder m = [] then ''General'' else hd (m_queueOrder m))"

definition queueOf :: "manager \<Rightarrow> entry \<Rightarrow> string" where
  "queueOf m e = (case taskQueue e of Some q \<Rightarrow> q | None \<Rightarrow> defaultQueueName m)"

text \<open>\<open>createQueue\<close> fills a default-constructed \<open>QueueInfo\<close>, whose member initialisers
  are in the module interface; it is the parameter \<open>fresh\<close>.\<close>

definition createQueue :: "QueueInfo \<Rightarrow> manager \<Rightarrow> string \<Rightarrow> manager \<times> event list" where
  "createQueue fresh m nm =
     (let tr = trimmed nm in
      if tr = [] then (m, [])
      else if m_queues m tr \<noteq> None then (m, [])
      else (m\<lparr>m_queues := (m_queues m)(tr \<mapsto> fresh\<lparr>name := tr,
                                                     maxConcurrent := m_maxConcurrent m,
                                                     maxSpeed := 0\<rparr>),
              m_queueOrder := m_queueOrder m @ [tr]\<rparr>,
            [queuesChanged, ScheduleSave]))"

definition applyTaskSpeed :: "manager \<Rightarrow> entry \<Rightarrow> entry" where
  "applyTaskSpeed m e =
     (let e0 = m_globalMaxSpeed m;
          e1 = (case m_queues m (queueOf m e) of
                  None \<Rightarrow> e0
                | Some info \<Rightarrow>
                    if maxSpeed info > 0 \<and> (e0 = 0 \<or> maxSpeed info < e0) then maxSpeed info
                    else e0);
          taskLimit = (case taskMaxSpeed e of None \<Rightarrow> 0 | Some v \<Rightarrow> v);
          e2 = (if taskLimit > 0 \<and> (e1 = 0 \<or> taskLimit < e1) then taskLimit else e1)
      in e\<lparr>taskOf := setMaxSpeed (taskOf e) e2\<rparr>)"

subsection \<open>Admission\<close>

definition runningCount :: "manager \<Rightarrow> int" where
  "runningCount m = int (length (filter (\<lambda>e. isRunning (taskOf e)) (m_queue m)))"

definition runningInQueue :: "manager \<Rightarrow> string \<Rightarrow> int" where
  "runningInQueue m q =
     int (length (filter (\<lambda>e. isRunning (taskOf e) \<and> queueOf m e = q) (m_queue m)))"

definition queueLimit :: "manager \<Rightarrow> string \<Rightarrow> int" where
  "queueLimit m q =
     (case m_queues m q of
        None \<Rightarrow> m_maxConcurrent m
      | Some info \<Rightarrow> if maxConcurrent info > 0 then maxConcurrent info else m_maxConcurrent m)"

text \<open>The body of the second loop of \<open>startQueued\<close> for the task at position \<open>i\<close>, with
  the loop's counters \<open>running\<close> and \<open>runningPerQueue\<close>; a \<open>continue\<close> returns them as
  they are.\<close>

definition admitOne ::
  "(string \<Rightarrow> bool) \<Rightarrow> int \<Rightarrow> QTime \<Rightarrow> QueueInfo \<Rightarrow> nat \<Rightarrow> manager \<Rightarrow> int \<Rightarrow> (string \<Rightarrow> int)
     \<Rightarrow> manager \<times> int \<times> (string \<Rightarrow> int) \<times> event list" where
  "admitOne valid clock now fresh i m running rpq =
     (let candidate = m_queue m ! i in
      if \<not> isIdle (taskOf candidate) then (m, running, rpq, [])
      else if m_pauseOnBattery m \<and> m_onBattery m then (m, running, rpq, [])
      else
        let qname = queueOf m candidate;
            created = (if m_queues m qname = None then createQueue fresh m qname else (m, []));
            m1 = fst created
        in case m_queues m1 qname of
             None \<Rightarrow> (m1, running, rpq, snd created)
           | Some info \<Rightarrow>
               if \<not> isQueueAllowed info now then (m1, running, rpq, snd created)
               else if rpq qname \<ge> (if maxConcurrent info > 0 then maxConcurrent info
                                      else m_maxConcurrent m1)
               then (m1, running, rpq, snd created)
               else
                 let c1 = applyTaskSpeed m1 candidate;
                     started = start valid clock (taskOf c1)
                 in (m1\<lparr>m_queue := (m_queue m1)[i := c1\<lparr>taskOf := fst started\<rparr>]\<rparr>,
                     running + 1, rpq(qname := rpq qname + 1),
                     snd created @ signalsOf i (snd started)))"

text \<open>The loop itself, which breaks once \<open>running\<close> has reached \<open>m_maxConcurrent\<close>.\<close>

primrec admitLoop ::
  "(string \<Rightarrow> bool) \<Rightarrow> int \<Rightarrow> QTime \<Rightarrow> QueueInfo \<Rightarrow> nat list \<Rightarrow> manager \<Rightarrow> int \<Rightarrow> (string \<Rightarrow> int)
     \<Rightarrow> manager \<times> event list" where
  "admitLoop valid clock now fresh [] m running rpq = (m, [])"
| "admitLoop valid clock now fresh (i # rest) m running rpq =
     (if running \<ge> m_maxConcurrent m then (m, [])
      else
        let one = admitOne valid clock now fresh i m running rpq;
            more = admitLoop valid clock now fresh rest (fst one) (fst (snd one))
                     (fst (snd (snd one)))
        in (fst more, snd (snd (snd one)) @ snd more))"

definition startQueued ::
  "(string \<Rightarrow> bool) \<Rightarrow> int \<Rightarrow> QTime \<Rightarrow> QueueInfo \<Rightarrow> manager \<Rightarrow> manager \<times> event list" where
  "startQueued valid clock now fresh m =
     (let (m1, ev) = admitLoop valid clock now fresh [0..<length (m_queue m)] m
                       (runningCount m) (runningInQueue m)
      in (m1, ev @ [countsChanged]))"

subsection \<open>Pausing and resuming from the manager\<close>

primrec resumeLoop ::
  "(string \<Rightarrow> bool) \<Rightarrow> int \<Rightarrow> nat list \<Rightarrow> manager \<Rightarrow> manager \<times> event list" where
  "resumeLoop valid clock [] m = (m, [])"
| "resumeLoop valid clock (i # rest) m =
     (let e = m_queue m ! i in
      if stateString (taskOf e) = ''Paused''
      then
        let (t', es) = resume valid clock (taskOf e);
            (m1, ev) = resumeLoop valid clock rest (m\<lparr>m_queue := (m_queue m)[i := e\<lparr>taskOf := t'\<rparr>]\<rparr>)
        in (m1, signalsOf i es @ ev)
      else resumeLoop valid clock rest m)"

definition resumeAll ::
  "(string \<Rightarrow> bool) \<Rightarrow> int \<Rightarrow> QTime \<Rightarrow> QueueInfo \<Rightarrow> manager \<Rightarrow> manager \<times> event list" where
  "resumeAll valid clock now fresh m =
     (let (m1, ev1) = resumeLoop valid clock [0..<length (m_queue m)] m;
          (m2, ev2) = startQueued valid clock now fresh m1
      in (m2, ev1 @ ev2 @ [ScheduleSave]))"

text \<open>A row of the download model is taken to be the position of the task in
  \<open>m_queue\<close>; a row without a task returns at once.\<close>

definition resumeTask ::
  "(string \<Rightarrow> bool) \<Rightarrow> int \<Rightarrow> QTime \<Rightarrow> QueueInfo \<Rightarrow> manager \<Rightarrow> int \<Rightarrow> manager \<times> event list" where
  "resumeTask valid clock now fresh m index' =
     (if index' < 0 \<or> index' \<ge> int (length (m_queue m)) then (m, [])
      else
        let i = nat index';
            e = m_queue m ! i;
            (t', es) = resume valid clock (taskOf e);
            (m1, ev) = startQueued valid clock now fresh
                         (m\<lparr>m_queue := (m_queue m)[i := e\<lparr>taskOf := t'\<rparr>]\<rparr>)
        in (m1, signalsOf i es @ ev @ [ScheduleSave]))"

definition togglePause ::
  "(string \<Rightarrow> bool) \<Rightarrow> int \<Rightarrow> QTime \<Rightarrow> QueueInfo \<Rightarrow> manager \<Rightarrow> int \<Rightarrow> manager \<times> event list" where
  "togglePause valid clock now fresh m index' =
     (if index' < 0 \<or> index' \<ge> int (length (m_queue m)) then (m, [])
      else
        let i = nat index';
            e = m_queue m ! i
        in if stateString (taskOf e) = ''Active''
           then (let (t', es) = pause clock (taskOf e)
                 in (m\<lparr>m_queue := (m_queue m)[i := e\<lparr>taskOf := t'\<rparr>]\<rparr>,
                     signalsOf i es @ [ScheduleSave]))
           else if stateString (taskOf e) = ''Paused''
           then (let (t', es) = resume valid clock (taskOf e);
                     (m1, ev) = startQueued valid clock now fresh
                                  (m\<lparr>m_queue := (m_queue m)[i := e\<lparr>taskOf := t'\<rparr>]\<rparr>)
                 in (m1, signalsOf i es @ ev @ [ScheduleSave]))
           else (m, [ScheduleSave]))"

subsection \<open>The finished handler: mirror failover and retry\<close>

text \<open>
  \<open>onTaskFinishedWrapper\<close> for the task at position \<open>i\<close>; the text of a toast is cut down
  to its kind, and the checksum verification of a finished download is left out. The slot
  is connected to \<open>finished\<close> directly, and \<open>restart\<close> ends in \<open>start\<close>, which emits
  \<open>finished(false)\<close> at once when the URL it is to fetch is not valid. So when the mirror
  the handler has just advanced to has no valid URL, the handler runs again, for the same
  task, inside its own call of \<open>restart\<close>, and only then goes on with \<open>startQueued\<close> and
  its closing calls. Every such run has moved the task one mirror on, which bounds the
  nesting by the number of mirrors left.
\<close>

definition mirrorsLeft :: "task \<Rightarrow> nat" where
  "mirrorsLeft t = nat (int (length (m_mirrorUrls t)) - m_mirrorIndex t)"

lemma restart_mirrors:
  "m_mirrorUrls (fst (restart valid now t fs)) = m_mirrorUrls t"
  "m_mirrorIndex (fst (restart valid now t fs)) = m_mirrorIndex t"
  by (simp_all add: restart_def cleanup_def start_def Let_def split_beta)

lemma advanceMirror_left:
  assumes "fst (advanceMirror valid t)"
  shows "mirrorsLeft (fst (restart valid now (fst (snd (advanceMirror valid t))) fs)) < mirrorsLeft t"
proof -
  from assms have ne: "m_mirrorUrls t \<noteq> []"
    and lt: "m_mirrorIndex t + 1 < int (length (m_mirrorUrls t))"
    by (auto simp: advanceMirror_def Let_def split: if_splits)
  then have "m_mirrorUrls (fst (snd (advanceMirror valid t))) = m_mirrorUrls t"
    and "m_mirrorIndex (fst (snd (advanceMirror valid t))) = m_mirrorIndex t + 1"
    by (simp_all add: advanceMirror_def Let_def)
  with lt show ?thesis by (simp add: mirrorsLeft_def restart_mirrors)
qed

function onTaskFinishedWrapper ::
  "(string \<Rightarrow> bool) \<Rightarrow> int \<Rightarrow> manager \<Rightarrow> nat \<Rightarrow> filesys \<Rightarrow> manager \<times> filesys \<times> event list" where
  "onTaskFinishedWrapper valid clock m i fs =
     (if i \<ge> length (m_queue m) then (m, fs, [])
      else if m_bulkCancelInProgress m then (m, fs, [])
      else
        let e0 = (m_queue m ! i)\<lparr>taskSpeed := Some 0, taskCompletedAt := Some clock\<rparr>;
            t = taskOf e0;
            st = stateString t;
            ev1 = (if st = ''Done''
                   then [Toast ''success'', ApplyPostActions i]
                   else if st = ''Error'' then [Toast ''danger'']
                   else if st = ''Canceled'' then [Toast ''muted'']
                   else []);
            closing = [UpdateTotals, ScheduleSave, StartQueued, countsChanged]
        in if st = ''Error'' \<and> fst (advanceMirror valid t)
           then
             (let adv = advanceMirror valid t;
                  r = restart valid clock (fst (snd adv)) fs;
                  m1 = m\<lparr>m_queue := (m_queue m)[i := e0\<lparr>taskOf := fst r\<rparr>]\<rparr>;
                  inner = (if emitsFinished (snd (snd r))
                           then onTaskFinishedWrapper valid clock m1 i (fst (snd r))
                           else (m1, fst (snd r), []))
              in (fst inner, fst (snd inner),
                  ev1 @ signalsOf i (snd (snd adv)) @ [Toast ''warning'']
                  @ signalsOf i (snd (snd r)) @ snd (snd inner) @ [StartQueued] @ closing))
           else if st = ''Error''
           then
             (let maxRetries = (if m_retryMax t \<ge> 0 then m_retryMax t else m_autoRetryMax m);
                  delaySec = (if m_retryDelaySec t \<ge> 0 then m_retryDelaySec t
                              else m_autoRetryDelaySec m);
                  attempts = (case taskRetryCount e0 of None \<Rightarrow> 0 | Some a \<Rightarrow> a)
              in if attempts < maxRetries
                 then (m\<lparr>m_queue := (m_queue m)[i := e0\<lparr>taskRetryCount := Some (attempts + 1)\<rparr>]\<rparr>,
                       fs, ev1 @ [Toast ''warning'', RetryTimer (delaySec * 1000) i] @ closing)
                 else (m\<lparr>m_queue := (m_queue m)[i := e0]\<rparr>, fs, ev1 @ closing))
           else (m\<lparr>m_queue := (m_queue m)[i := e0]\<rparr>, fs, ev1 @ closing))"
  by pat_completeness auto
termination
  apply (relation "measure (\<lambda>(valid, clock, m, i, fs). mirrorsLeft (taskOf (m_queue m ! i)))")
   apply simp
  apply (simp add: advanceMirror_left)
  done

declare onTaskFinishedWrapper.simps [simp del]

text \<open>The timer armed by the retry branch; a restart that fails at once is handled by
  the finished handler inside it.\<close>

definition onRetryTimer ::
  "(string \<Rightarrow> bool) \<Rightarrow> int \<Rightarrow> manager \<Rightarrow> nat \<Rightarrow> filesys \<Rightarrow> manager \<times> filesys \<times> event list" where
  "onRetryTimer valid clock m i fs =
     (if i \<ge> length (m_queue m) then (m, fs, [])
      else
        let e = m_queue m ! i in
        if stateString (taskOf e) = ''Error''
        then (let r = restart valid clock (taskOf e) fs;
                  m1 = m\<lparr>m_queue := (m_queue m)[i := e\<lparr>taskOf := fst r\<rparr>]\<rparr>;
                  inner = (if emitsFinished (snd (snd r))
                           then onTaskFinishedWrapper valid clock m1 i (fst (snd r))
                           else (m1, fst (snd r), []))
              in (fst inner, fst (snd inner),
                  signalsOf i (snd (snd r)) @ snd (snd inner) @ [StartQueued]))
        else (m, fs, []))"

subsection \<open>Bulk cancellation\<close>

text \<open>\<open>cancelAll\<close> cancels every task with the guard flag set; each \<open>finished\<close> signal a
  task emits on the way reaches \<open>onTaskFinishedWrapper\<close> at once, under that flag.\<close>

primrec deliverFinished ::
  "(string \<Rightarrow> bool) \<Rightarrow> int \<Rightarrow> nat \<Rightarrow> effect list \<Rightarrow> manager \<Rightarrow> filesys \<Rightarrow> manager \<times> filesys \<times> event list" where
  "deliverFinished valid clock i [] m fs = (m, fs, [])"
| "deliverFinished valid clock i (x # xs) m fs =
     (case x of
        Emit (finished b) \<Rightarrow>
          (let (m1, fs1, ev1) = onTaskFinishedWrapper valid clock m i fs;
               (m2, fs2, ev2) = deliverFinished valid clock i xs m1 fs1
           in (m2, fs2, ev1 @ ev2))
      | _ \<Rightarrow> deliverFinished valid clock i xs m fs)"

primrec cancelLoop ::
  "(string \<Rightarrow> bool) \<Rightarrow> int \<Rightarrow> nat list \<Rightarrow> manager \<Rightarrow> filesys \<Rightarrow> manager \<times> filesys \<times> event list" where
  "cancelLoop valid clock [] m fs = (m, fs, [])"
| "cancelLoop valid clock (i # rest) m fs =
     (let e = m_queue m ! i;
          (t', fs1, es) = cancel (taskOf e) fs;
          m1 = m\<lparr>m_queue := (m_queue m)[i := e\<lparr>taskOf := t'\<rparr>]\<rparr>;
          (m2, fs2, ev1) = deliverFinished valid clock i es m1 fs1;
          (m3, fs3, ev2) = cancelLoop valid clock rest m2 fs2
      in (m3, fs3, ev1 @ ev2))"

text \<open>\<open>cancelAll\<close> returns the manager with its containers cleared and, beside it, the
  tasks as it left them (the download model still holds them).\<close>

definition cancelAll ::
  "(string \<Rightarrow> bool) \<Rightarrow> int \<Rightarrow> manager \<Rightarrow> filesys \<Rightarrow> manager \<times> task list \<times> filesys \<times> event list" where
  "cancelAll valid clock m fs =
     (let (m1, fs1, ev) = cancelLoop valid clock [0..<length (m_queue m)]
                            (m\<lparr>m_bulkCancelInProgress := True\<rparr>) fs
      in (m1\<lparr>m_bulkCancelInProgress := False, m_queue := []\<rparr>,
          map taskOf (m_queue m1), fs1,
          ev @ [UpdateTotals, countsChanged, ScheduleSave]))"

subsection \<open>The decision table of the specification\<close>





section \<open>Unique file paths\<close>

text \<open>
  \<open>uniqueFilePath\<close> works through \<open>QUrl\<close>, \<open>QFileInfo\<close> and \<open>QDir\<close>. What they compute
  is a parameter: \<open>toLocalFile\<close> gives the local path of a string that is a valid URL of a
  local file, and \<open>absolutePath\<close>, \<open>completeBaseName\<close>, \<open>completeSuffix\<close> and \<open>filePath\<close>
  are the functions of those names.
\<close>

record QtPaths =
  toLocalFile :: "string \<Rightarrow> string option"
  absolutePath :: "string \<Rightarrow> string"
  completeBaseName :: "string \<Rightarrow> string"
  completeSuffix :: "string \<Rightarrow> string"
  filePath :: "string \<Rightarrow> string \<Rightarrow> string"

definition startsWith :: "string \<Rightarrow> string \<Rightarrow> bool" where
  "startsWith s p = (take (length p) s = p)"

definition normalizeFilePath :: "QtPaths \<Rightarrow> string \<Rightarrow> string" where
  "normalizeFilePath qt path =
     (if startsWith path ''file://''
      then (case toLocalFile qt path of Some l \<Rightarrow> l | None \<Rightarrow> path)
      else path)"

definition existsCandidate :: "filesys \<Rightarrow> string \<Rightarrow> bool" where
  "existsCandidate fs candidate = (exists fs candidate \<or> exists fs (candidate @ ''.part''))"

definition candidateName :: "QtPaths \<Rightarrow> string \<Rightarrow> string \<Rightarrow> string \<Rightarrow> nat \<Rightarrow> string" where
  "candidateName qt dirPath base suffix i =
     filePath qt dirPath
       (if suffix = [] then qarg (qarg ''%1 (%2)'' base) (decimal i)
        else qarg (qarg (qarg ''%1 (%2).%3'' base) (decimal i)) suffix)"

function uniqueLoop ::
  "QtPaths \<Rightarrow> filesys \<Rightarrow> string \<Rightarrow> string \<Rightarrow> string \<Rightarrow> string \<Rightarrow> nat \<Rightarrow> string" where
  "uniqueLoop qt fs normalized dirPath base suffix i =
     (if i < 10000
      then (if \<not> existsCandidate fs (candidateName qt dirPath base suffix i)
            then candidateName qt dirPath base suffix i
            else uniqueLoop qt fs normalized dirPath base suffix (i + 1))
      else normalized)"
  by pat_completeness auto
termination
  by (relation "measure (\<lambda>(qt, fs, normalized, dirPath, base, suffix, i). 10000 - i)") auto

declare uniqueLoop.simps [simp del]

definition uniqueFilePath :: "QtPaths \<Rightarrow> filesys \<Rightarrow> string \<Rightarrow> string" where
  "uniqueFilePath qt fs path =
     (let normalized = normalizeFilePath qt path in
      if normalized = [] then normalized
      else
        let dirPath = absolutePath qt normalized;
            base = completeBaseName qt normalized;
            suffix = completeSuffix qt normalized
        in if \<not> existsCandidate fs normalized then normalized
           else uniqueLoop qt fs normalized dirPath base suffix 1)"

section \<open>Reading the events\<close>

fun isFinishedEvent :: "event \<Rightarrow> bool" where
  "isFinishedEvent (TaskSignal i (finished b)) = True"
| "isFinishedEvent _ = False"

fun isRetryTimer :: "event \<Rightarrow> bool" where
  "isRetryTimer (RetryTimer d k) = True"
| "isRetryTimer _ = False"



section \<open>Concrete inputs\<close>

definition exQueue :: "bool \<Rightarrow> int \<Rightarrow> int \<Rightarrow> QueueInfo" where
  "exQueue enabled s e = \<lparr>name = ''General'', maxConcurrent = 3, maxSpeed = 0,
     scheduleEnabled = enabled, startMinutes = s, endMinutes = e, quotaEnabled = False,
     quotaBytes = 0, downloadedToday = 0\<rparr>"

definition exTask :: task where
  "exTask = \<lparr>m_url = ''http://a.example/f.bin'', m_filePath = ''/d/f.bin'', m_segments = 8,
     m_state = Downloading, m_anyError = False, m_totalSize = 0, m_useRange = True,
     m_serverSupportsRange = False, m_etag = [], m_lastModified = [], m_mirrorUrls = [],
     m_mirrorIndex = 0, m_segmentsInfo = [], m_headReply = True, m_singleReply = None,
     m_singleFile = False, m_singleBuffer = [], m_singleProcessing = False,
     m_singleWritten = 0, m_resumeSingle = False, m_useSingleTemp = True,
     m_singleTempPath = ''/d/f.bin.part'', m_maxSpeed = 0, m_throttleTimer = 0,
     m_throttleBytes = 0, m_pauseReason = [], m_pausedAt = 0, m_retryMax = -1,
     m_retryDelaySec = -1, m_resumeWarning = []\<rparr>"

definition exHead :: "int option \<Rightarrow> string \<Rightarrow> HeadReply" where
  "exHead cl ar = \<lparr>hr_error = False, hr_ETag = ''\"v1\"'', hr_LastModified = [],
     hr_ContentLength = cl, hr_AcceptRanges = ar\<rparr>"

definition exTask2 :: task where
  "exTask2 = exTask\<lparr>m_segments := 2, m_totalSize := 8388608\<rparr>"

definition exDisk2 :: filesys where
  "exDisk2 = (\<lambda>p. None)(''/d/f.bin.part0'' \<mapsto> 5000000)"

text \<open>The same download once its second segment has arrived in full: the task and the
  disk \<open>prepareSegments\<close> left, with 4194304 bytes counted for segment 1 and stored in
  its part file.\<close>

definition exFetched2 :: "task \<times> filesys" where
  "exFetched2 =
     (let (t, fs) = prepareSegments exTask2 (hasPartialSegments exTask2 exDisk2) 2 exDisk2
      in (t\<lparr>m_segmentsInfo := (m_segmentsInfo t)[1 := (m_segmentsInfo t ! 1)\<lparr>downloaded := 4194304\<rparr>]\<rparr>,
          fs(''/d/f.bin.part1'' \<mapsto> 4194304)))"

text \<open>A disk on which a part file of 15 bytes is left for the first segment, and the
  reply to the HEAD request for a file that has 10 bytes now.\<close>

definition exDisk3 :: filesys where
  "exDisk3 = (\<lambda>p. None)(''/d/f.bin.part0'' \<mapsto> 15)"

definition exPrepared3 :: "task \<times> filesys" where
  "exPrepared3 =
     (let (t, p) = onHeadFinished exTask (exHead (Some 10) ''bytes'') (hasExistingFile exTask exDisk3)
      in case p of
           Segmented n \<Rightarrow> prepareSegments t (hasPartialSegments exTask exDisk3) n exDisk3
         | _ \<Rightarrow> (t, exDisk3))"


text \<open>A disk with a finished file at the final path and one part file.\<close>

definition exDisk :: filesys where
  "exDisk = ((\<lambda>p. None)(''/d/f.bin'' \<mapsto> 4096))(''/d/f.bin.part0'' \<mapsto> 100)"

text \<open>A task downloading one segment, with five bytes waiting in the segment's buffer
  and a cap of 1000 bytes per second.\<close>

definition exSegmented :: task where
  "exSegmented = exTask\<lparr>m_headReply := False, m_totalSize := 1000, m_maxSpeed := 1000,
     m_segmentsInfo := [\<lparr>seg_start = 0, seg_end = 999, tempFilePath = ''/d/f.bin.part0'',
                          downloaded = 100, buffer = [1, 2, 3, 4, 5], processing = False,
                          seg_file = True, seg_reply = Some 3\<rparr>]\<rparr>"

text \<open>A task downloading in a single stream, resumed at byte 1000, with five bytes
  waiting in its buffer and a cap of 1000 bytes per second.\<close>

definition exSingle :: task where
  "exSingle = exTask\<lparr>m_headReply := False, m_singleReply := Some 7, m_singleFile := True,
     m_singleBuffer := [1, 2, 3, 4, 5], m_singleWritten := 1000, m_resumeSingle := True,
     m_maxSpeed := 1000\<rparr>"



text \<open>\<open>QUrl\<close> holds an empty URL to be invalid.\<close>

definition exValid :: "string \<Rightarrow> bool" where
  "exValid u = (u \<noteq> [])"

definition exEntry :: "State \<Rightarrow> entry" where
  "exEntry st = \<lparr>taskOf = exTask\<lparr>m_state := st, m_headReply := False\<rparr>,
     taskQueue = Some ''General'', taskMaxSpeed = Some 0, taskSpeed = None,
     taskCompletedAt = Some 0, taskRetryCount = Some 0\<rparr>"

definition exManager :: "int \<Rightarrow> entry list \<Rightarrow> manager" where
  "exManager limit es = \<lparr>m_queue = es,
     m_queues = (\<lambda>q. None)(''General'' \<mapsto> (exQueue False 0 0)\<lparr>maxConcurrent := limit\<rparr>),
     m_queueOrder = [''General''], m_maxConcurrent = limit, m_globalMaxSpeed = 0,
     m_autoRetryMax = 2, m_autoRetryDelaySec = 5, m_pauseOnBattery = False,
     m_onBattery = False, m_bulkCancelInProgress = False\<rparr>"


text \<open>The path functions of Qt on POSIX paths without \<open>.\<close> and \<open>..\<close> components, for a
  process whose working directory is \<open>/home\<close>, and \<open>toLocalFile\<close> on file URLs without a
  host. \<open>absolutePath\<close> is the path without the file name (the root for a file in the
  root directory); \<open>completeBaseName\<close> is the file name up to its last dot and
  \<open>completeSuffix\<close> the file name after its first dot; \<open>QDir::filePath\<close> returns an
  absolute name as it is and otherwise joins the directory and the name with one
  separator.\<close>

definition dirPart :: "string \<Rightarrow> string" where
  "dirPart p = rev (drop 1 (dropWhile (\<lambda>c. c \<noteq> CHR ''/'') (rev p)))"

definition namePart :: "string \<Rightarrow> string" where
  "namePart p = rev (takeWhile (\<lambda>c. c \<noteq> CHR ''/'') (rev p))"

definition exQt :: QtPaths where
  "exQt = \<lparr>toLocalFile = (\<lambda>p. if startsWith p ''file:///'' then Some (CHR ''/'' # drop 8 p) else None),
     absolutePath = (\<lambda>p. if startsWith p ''/''
                          then (if dirPart p = [] then ''/'' else dirPart p)
                          else (if dirPart p = [] then ''/home'' else ''/home/'' @ dirPart p)),
     completeBaseName = (\<lambda>p. if CHR ''.'' \<in> set (namePart p)
                              then rev (drop 1 (dropWhile (\<lambda>c. c \<noteq> CHR ''.'') (rev (namePart p))))
                              else namePart p),
     completeSuffix = (\<lambda>p. drop 1 (dropWhile (\<lambda>c. c \<noteq> CHR ''.'') (namePart p))),
     filePath = (\<lambda>d n. if startsWith n ''/'' then n
                        else if d = [] then n
                        else if last d = CHR ''/'' then d @ n
                        else d @ ''/'' @ n)\<rparr>"

text \<open>A disk that holds the archive \<open>/d/a.tar.gz\<close>.\<close>

definition exArchive :: filesys where
  "exArchive = (\<lambda>p. None)(''/d/a.tar.gz'' \<mapsto> 2048)"

section \<open>The schedule window\<close>

text \<open>
  C10. With the schedule disabled the window test always passes. With it enabled: equal
  start and end minutes mean always inside; start before end means inside exactly when
  start \<le> current < end; start after end wraps past midnight, inside exactly when
  current \<ge> start or current < end. A queue whose schedule is enabled is refused by
  \<open>isQueueAllowed\<close> whenever the test fails.
\<close>

theorem isWithinSchedule_semantics:
  "(\<not> scheduleEnabled info \<longrightarrow> isWithinSchedule info now)
   \<and> (scheduleEnabled info \<and> startMinutes info = endMinutes info
        \<longrightarrow> isWithinSchedule info now)
   \<and> (scheduleEnabled info \<and> startMinutes info < endMinutes info
        \<longrightarrow> isWithinSchedule info now
             = (startMinutes info \<le> hour now * 60 + minute now
                \<and> hour now * 60 + minute now < endMinutes info))
   \<and> (scheduleEnabled info \<and> startMinutes info > endMinutes info
        \<longrightarrow> isWithinSchedule info now
             = (hour now * 60 + minute now \<ge> startMinutes info
                \<or> hour now * 60 + minute now < endMinutes info))
   \<and> (scheduleEnabled info \<and> \<not> isWithinSchedule info now
        \<longrightarrow> \<not> isQueueAllowed info now)"
  by (simp add: isWithinSchedule_def isQueueAllowed_def Let_def)


theorem isWithinSchedule_semantics_witness:
  "isWithinSchedule (exQueue False 0 0) \<lparr>hour = 3, minute = 0\<rparr>
   \<and> isWithinSchedule (exQueue True 600 600) \<lparr>hour = 3, minute = 0\<rparr>
   \<and> isWithinSchedule (exQueue True 480 1020) \<lparr>hour = 8, minute = 0\<rparr>
   \<and> \<not> isWithinSchedule (exQueue True 480 1020) \<lparr>hour = 17, minute = 0\<rparr>
   \<and> isWithinSchedule (exQueue True 1320 360) \<lparr>hour = 23, minute = 30\<rparr>
   \<and> isWithinSchedule (exQueue True 1320 360) \<lparr>hour = 5, minute = 59\<rparr>
   \<and> \<not> isWithinSchedule (exQueue True 1320 360) \<lparr>hour = 6, minute = 0\<rparr>
   \<and> \<not> isQueueAllowed (exQueue True 1320 360) \<lparr>hour = 6, minute = 0\<rparr>"
  using isWithinSchedule_semantics [of "exQueue False 0 0" "\<lparr>hour = 3, minute = 0\<rparr>"]
        isWithinSchedule_semantics [of "exQueue True 600 600" "\<lparr>hour = 3, minute = 0\<rparr>"]
        isWithinSchedule_semantics [of "exQueue True 480 1020" "\<lparr>hour = 8, minute = 0\<rparr>"]
        isWithinSchedule_semantics [of "exQueue True 480 1020" "\<lparr>hour = 17, minute = 0\<rparr>"]
        isWithinSchedule_semantics [of "exQueue True 1320 360" "\<lparr>hour = 23, minute = 30\<rparr>"]
        isWithinSchedule_semantics [of "exQueue True 1320 360" "\<lparr>hour = 5, minute = 59\<rparr>"]
        isWithinSchedule_semantics [of "exQueue True 1320 360" "\<lparr>hour = 6, minute = 0\<rparr>"]
  by (simp add: exQueue_def)

section \<open>The segmentation decision\<close>



lemma onHeadFinished_filePath [simp]:
  "m_filePath (fst (onHeadFinished t r a)) = m_filePath t"
  by (simp add: onHeadFinished_def Let_def split: option.splits)




section \<open>Laying out the segments and reusing part files\<close>


text \<open>
  C2. A part file that is larger than its segment is to be removed and the segment
  started at 0. The handler keeps such a file and counts the segment as complete.
  A download of 8 MiB in two segments of 4194304 bytes that finds 5000000 bytes in the
  part file of its first segment keeps the file, counts 4194304 bytes for the segment
  and starts only the second one; once that has arrived, the merge appends both part
  files whole and the task reports success with a file of 9194304 bytes. Likewise a
  file of 10 bytes, laid out as one segment, for which a part file of 15 bytes is left on
  disk: no segment is started, and the task finishes at once, with success, on a file
  of 15 bytes.
\<close>

theorem prepareSegments_oversized_part:
  "hasPartialSegments exTask2 exDisk2
   \<and> exDisk2 (partPath (m_filePath exTask2) 0) = Some 5000000
   \<and> map (\<lambda>s. (seg_start s, seg_end s, tempFilePath s, downloaded s))
        (m_segmentsInfo (fst (prepareSegments exTask2 True 2 exDisk2)))
       = [(0, 4194303, ''/d/f.bin.part0'', 4194304), (4194304, 8388607, ''/d/f.bin.part1'', 0)]
   \<and> snd (prepareSegments exTask2 True 2 exDisk2) ''/d/f.bin.part0'' = Some 5000000
   \<and> m_totalSize (fst exFetched2) = 8388608
   \<and> snd (snd (onSegmentFinished (fst exFetched2) (snd exFetched2) True))
       = [Emit stateChanged, Emit (finished True)]
   \<and> fst (snd (onSegmentFinished (fst exFetched2) (snd exFetched2) True)) ''/d/f.bin''
       = Some 9194304
   \<and> map (\<lambda>s. (seg_start s, seg_end s, tempFilePath s, downloaded s))
        (m_segmentsInfo (fst exPrepared3))
       = [(0, 9, ''/d/f.bin.part0'', 10)]
   \<and> m_totalSize (fst exPrepared3) = 10
   \<and> snd (snd (onSegmentFinished (fst exPrepared3) (snd exPrepared3) True))
       = [Emit stateChanged, Emit (finished True)]
   \<and> fst (snd (onSegmentFinished (fst exPrepared3) (snd exPrepared3) True)) ''/d/f.bin''
       = Some 15"
  by code_simp

section \<open>Facts about cleanup, cancel and start\<close>


lemma cleanup_state: "m_state (fst (cleanup t fs b)) = m_state t"
  by (simp add: cleanup_def Let_def)

lemma cleanup_effects: "snd (snd (cleanup t fs b)) = (if b then [Emit (finished False)] else [])"
  by (simp add: cleanup_def Let_def)


lemma cancel_state:
  assumes "m_state t \<noteq> Finished" and "m_state t \<noteq> Canceled"
  shows "m_state (fst (cancel t fs)) = Canceled"
  using assms by (simp add: cancel_def Let_def split_beta cleanup_state)


lemma cancel_signals:
  assumes "m_state t \<noteq> Finished" and "m_state t \<noteq> Canceled"
  shows "snd (snd (cancel t fs)) =
      [Emit stateChanged] @ (if m_pauseReason t \<noteq> [] then [Emit pauseReasonChanged] else [])
        @ (if m_pausedAt t \<noteq> 0 then [Emit pausedAtChanged] else []) @ [Emit (finished False)]"
  using assms by (simp add: cancel_def Let_def split_beta cleanup_effects)

lemma emitsFinished_simps [simp]:
  "emitsFinished [] = False"
  "emitsFinished (Emit (finished b) # es) = True"
  "emitsFinished (Emit stateChanged # es) = emitsFinished es"
  "emitsFinished (Emit pauseReasonChanged # es) = emitsFinished es"
  "emitsFinished (Emit pausedAtChanged # es) = emitsFinished es"
  "emitsFinished (Emit resumeWarningChanged # es) = emitsFinished es"
  "emitsFinished (Emit (progress a c) # es) = emitsFinished es"
  "emitsFinished (SingleShot d cb # es) = emitsFinished es"
  "emitsFinished (xs @ ys) = (emitsFinished xs \<or> emitsFinished ys)"
  by (auto simp: emitsFinished_def)

lemma canceled_quiet_process:
  "m_state t = Canceled \<Longrightarrow> processSingleBuffer t fs now1 wr now2 = (t, fs, [])"
  by (simp add: processSingleBuffer_def)

lemma bulk_handler:
  "m_bulkCancelInProgress m \<Longrightarrow> onTaskFinishedWrapper valid clock m i fs = (m, fs, [])"
  by (subst onTaskFinishedWrapper.simps) simp

lemma bulk_deliver:
  "m_bulkCancelInProgress m \<Longrightarrow> deliverFinished valid clock i es m fs = (m, fs, [])"
proof (induction es)
  case Nil
  show ?case by simp
next
  case (Cons x xs)
  then show ?case
    by (cases x) (auto simp: bulk_handler split: signal.splits)
qed

lemma bulk_cancelLoop:
  "m_bulkCancelInProgress m \<Longrightarrow> snd (snd (cancelLoop valid clock js m fs)) = []"
proof (induction js arbitrary: m fs)
  case Nil
  show ?case by simp
next
  case (Cons j js)
  obtain t' fs1 es where c: "cancel (taskOf (m_queue m ! j)) fs = (t', fs1, es)"
    by (cases "cancel (taskOf (m_queue m ! j)) fs") auto
  let ?m1 = "m\<lparr>m_queue := (m_queue m)[j := (m_queue m ! j)\<lparr>taskOf := t'\<rparr>]\<rparr>"
  have f: "m_bulkCancelInProgress ?m1" using Cons.prems by simp
  have d: "deliverFinished valid clock j es ?m1 fs1 = (?m1, fs1, [])"
    by (rule bulk_deliver[OF f])
  from Cons.IH[OF f, of fs1] show ?case
    by (simp add: Let_def c d split_beta)
qed


section \<open>What cancel removes\<close>





section \<open>The finished signal and cancellation\<close>

text \<open>
  C3, as the code has it. \<open>cancel\<close> on a task that is neither Finished nor Canceled first
  sets the state to Canceled and announces it, and then emits \<open>finished(false)\<close>, once, as
  its last signal. A task that is in the state Canceled emits no \<open>finished\<close> from
  \<open>cancel\<close>, \<open>pause\<close>, \<open>pauseWithReason\<close>, \<open>resume\<close>, \<open>start\<close>, the write processors,
  \<open>onSegmentFinished\<close> or the handler of a late single-stream reply. While
  \<open>m_bulkCancelInProgress\<close> is set the manager's finished handler returns at once and
  changes nothing, and \<open>cancelAll\<close> as a whole produces no event through it.
\<close>

theorem finished_and_cancel:
  "(m_state t \<noteq> Finished \<and> m_state t \<noteq> Canceled \<longrightarrow>
      (let r = cancel t fs; es = snd (snd r)
       in m_state (fst r) = Canceled
        \<and> hd es = Emit stateChanged
        \<and> last es = Emit (finished False)
        \<and> length (filter isFinishedSignal es) = 1))
   \<and> (m_state t = Canceled \<longrightarrow>
        \<not> emitsFinished (snd (snd (cancel t fs)))
        \<and> \<not> emitsFinished (snd (pause nowMs t))
        \<and> \<not> emitsFinished (snd (pauseWithReason nowMs reason t))
        \<and> \<not> emitsFinished (snd (resume valid now t))
        \<and> \<not> emitsFinished (snd (start valid now t))
        \<and> \<not> emitsFinished (snd (snd (processSingleBuffer t fs now1 wr now2)))
        \<and> \<not> emitsFinished (snd (snd (retrySingleBuffer t fs now1 wr now2)))
        \<and> \<not> emitsFinished (snd (snd (processSegmentBuffer t i fs now1 wr now2)))
        \<and> \<not> emitsFinished (snd (snd (onSegmentFinished t fs outOk)))
        \<and> \<not> emitsFinished (snd (snd (onSingleFinished t h replyError fs now1 wr now2))))
   \<and> (m_bulkCancelInProgress m \<longrightarrow> onTaskFinishedWrapper valid clock m k fs = (m, fs, []))
   \<and> snd (snd (snd (cancelAll valid clock m fs))) = [UpdateTotals, countsChanged, ScheduleSave]"
proof (intro conjI impI)
  assume a: "m_state t \<noteq> Finished \<and> m_state t \<noteq> Canceled"
  then show "(let r = cancel t fs; es = snd (snd r)
       in m_state (fst r) = Canceled
        \<and> hd es = Emit stateChanged
        \<and> last es = Emit (finished False)
        \<and> length (filter isFinishedSignal es) = 1)"
    unfolding Let_def by (simp add: cancel_state cancel_signals)
next
  assume c: "m_state t = Canceled"
  show "\<not> emitsFinished (snd (snd (cancel t fs)))" using c by (simp add: cancel_def)
  show "\<not> emitsFinished (snd (pause nowMs t))" using c by (simp add: pause_def)
  show "\<not> emitsFinished (snd (pauseWithReason nowMs reason t))" using c by (simp add: pauseWithReason_def)
  show "\<not> emitsFinished (snd (resume valid now t))" using c by (simp add: resume_def)
  show "\<not> emitsFinished (snd (start valid now t))" using c by (simp add: start_def)
  show "\<not> emitsFinished (snd (snd (processSingleBuffer t fs now1 wr now2)))"
    using c by (simp add: processSingleBuffer_def)
  show "\<not> emitsFinished (snd (snd (retrySingleBuffer t fs now1 wr now2)))"
    using c by (simp add: retrySingleBuffer_def processSingleBuffer_def)
  show "\<not> emitsFinished (snd (snd (processSegmentBuffer t i fs now1 wr now2)))"
    using c by (simp add: processSegmentBuffer_def Let_def)
  show "\<not> emitsFinished (snd (snd (onSegmentFinished t fs outOk)))"
    using c by (simp add: onSegmentFinished_def)
  show "\<not> emitsFinished (snd (snd (onSingleFinished t h replyError fs now1 wr now2)))"
    using c by (simp add: onSingleFinished_def Let_def processSingleBuffer_def)
next
  assume "m_bulkCancelInProgress m"
  then show "onTaskFinishedWrapper valid clock m k fs = (m, fs, [])" by (rule bulk_handler)
next
  have "m_bulkCancelInProgress (m\<lparr>m_bulkCancelInProgress := True\<rparr>)" by simp
  from bulk_cancelLoop[OF this, of valid clock "[0..<length (m_queue m)]" fs]
  show "snd (snd (snd (cancelAll valid clock m fs))) = [UpdateTotals, countsChanged, ScheduleSave]"
    by (simp add: cancelAll_def Let_def split_beta)
qed


theorem finished_and_cancel_witness:
  "m_state (fst (cancel exSegmented exDisk)) = Canceled
   \<and> last (snd (snd (cancel exSegmented exDisk))) = Emit (finished False)
   \<and> length (filter isFinishedSignal (snd (snd (cancel exSegmented exDisk)))) = 1
   \<and> \<not> emitsFinished (snd (snd (cancel (exSingle\<lparr>m_state := Canceled\<rparr>) exDisk)))
   \<and> \<not> emitsFinished (snd (resume exValid 0 (exSingle\<lparr>m_state := Canceled\<rparr>)))
   \<and> \<not> emitsFinished (snd (snd (onSingleFinished (exSingle\<lparr>m_state := Canceled\<rparr>) 7 True exDisk
                                   3 (\<lambda>n. n) 3)))
   \<and> onTaskFinishedWrapper exValid 0
        ((exManager 1 [exEntry Downloading])\<lparr>m_bulkCancelInProgress := True\<rparr>) 0 exDisk
       = ((exManager 1 [exEntry Downloading])\<lparr>m_bulkCancelInProgress := True\<rparr>, exDisk, [])
   \<and> snd (snd (snd (cancelAll exValid 0 (exManager 1 [exEntry Downloading]) exDisk)))
       = [UpdateTotals, countsChanged, ScheduleSave]"
proof -
  have h1: "m_state exSegmented \<noteq> Finished \<and> m_state exSegmented \<noteq> Canceled" by code_simp
  have h2: "m_state (exSingle\<lparr>m_state := Canceled\<rparr>) = Canceled" by simp
  have h3: "m_bulkCancelInProgress ((exManager 1 [exEntry Downloading])\<lparr>m_bulkCancelInProgress := True\<rparr>)"
    by simp
  note w1 = finished_and_cancel [where t = exSegmented and fs = exDisk
      and m = "exManager 1 [exEntry Downloading]" and valid = exValid and clock = 0,
      unfolded Let_def]
  note w2 = finished_and_cancel [where t = "exSingle\<lparr>m_state := Canceled\<rparr>" and fs = exDisk
      and valid = exValid and now = 0 and h = 7 and replyError = True and ?now1.0 = 3
      and wr = "\<lambda>n. n" and ?now2.0 = 3, unfolded Let_def]
  note w3 = finished_and_cancel [where
      m = "(exManager 1 [exEntry Downloading])\<lparr>m_bulkCancelInProgress := True\<rparr>"
      and valid = exValid and clock = 0 and k = 0 and fs = exDisk]
  from w1 h1 have a: "m_state (fst (cancel exSegmented exDisk)) = Canceled"
    and b: "last (snd (snd (cancel exSegmented exDisk))) = Emit (finished False)"
    and c: "length (filter isFinishedSignal (snd (snd (cancel exSegmented exDisk)))) = 1"
    and g: "snd (snd (snd (cancelAll exValid 0 (exManager 1 [exEntry Downloading]) exDisk)))
       = [UpdateTotals, countsChanged, ScheduleSave]"
    by blast+
  from w2 h2 have d: "\<not> emitsFinished (snd (snd (cancel (exSingle\<lparr>m_state := Canceled\<rparr>) exDisk)))"
    and e: "\<not> emitsFinished (snd (resume exValid 0 (exSingle\<lparr>m_state := Canceled\<rparr>)))"
    and f: "\<not> emitsFinished (snd (snd (onSingleFinished (exSingle\<lparr>m_state := Canceled\<rparr>) 7 True exDisk
                                   3 (\<lambda>n. n) 3)))"
    by blast+
  from w3 h3 have i: "onTaskFinishedWrapper exValid 0
        ((exManager 1 [exEntry Downloading])\<lparr>m_bulkCancelInProgress := True\<rparr>) 0 exDisk
       = ((exManager 1 [exEntry Downloading])\<lparr>m_bulkCancelInProgress := True\<rparr>, exDisk, [])"
    by blast
  from a b c d e f i g show ?thesis by (intro conjI)
qed

text \<open>The signal \<open>finished(false)\<close> follows the change to Canceled.\<close>

theorem finished_and_cancel_counterexample:
  "m_state (fst (cancel exSegmented exDisk)) = Canceled
   \<and> snd (snd (cancel exSegmented exDisk)) = [Emit stateChanged, Emit (finished False)]"
  by code_simp

section \<open>The throttled write processors\<close>

lemma wrap64_fits: "fits64 x \<Longrightarrow> wrap64 x = x"
  by (simp add: fits64_def wrap64_def)

lemma allowedBytes_unlimited: "m_maxSpeed t \<le> 0 \<Longrightarrow> allowedBytes t e len = len"
  by (simp add: allowedBytes_def)

lemma allowedBytes_exact:
  assumes "m_maxSpeed t > 0" and "fits64 (m_maxSpeed t * (if e = 0 then 1 else e))"
    and "fits64 (tdiv (m_maxSpeed t * (if e = 0 then 1 else e)) 1000 - m_throttleBytes t)"
  shows "allowedBytes t e len
           = tdiv (m_maxSpeed t * (if e = 0 then 1 else e)) 1000 - m_throttleBytes t"
  using assms by (simp add: allowedBytes_def wrap64_fits)

text \<open>A cap of \<open>2^63 - 1\<close> bytes per second read at 2 ms: the product wraps to -2 and
  leaves no budget.\<close>

lemma allowedBytes_wraps:
  "allowedBytes (exSingle\<lparr>m_maxSpeed := 9223372036854775807\<rparr>) 2 5 = 0"
  by code_simp

lemma allowedBytes_processing [simp]:
  "allowedBytes (t\<lparr>m_singleProcessing := b\<rparr>) e n = allowedBytes t e n"
  by (simp add: allowedBytes_def)

lemma processSingleBuffer_blocked:
  assumes "m_singleFile t" and "\<not> m_singleProcessing t" and "m_singleBuffer t \<noteq> []"
    and "m_state t = Downloading"
    and "allowedBytes t (now1 - m_throttleTimer t) (int (length (m_singleBuffer t))) \<le> 0"
  shows "processSingleBuffer t fs now1 wr now2
           = (t\<lparr>m_singleProcessing := True\<rparr>, fs, [SingleShot 50 RetrySingleBuffer])"
  using assms by (simp add: processSingleBuffer_def Let_def)

lemma processSingleBuffer_writes:
  assumes "m_singleFile t" and "\<not> m_singleProcessing t" and "m_singleBuffer t \<noteq> []"
    and "m_state t = Downloading"
    and "allowed = allowedBytes t (now1 - m_throttleTimer t) (int (length (m_singleBuffer t)))"
    and "allowed > 0"
    and "n = max 0 (wr (min allowed (int (length (m_singleBuffer t)))))"
    and "processSingleBuffer t fs now1 wr now2 = (t', fs', es)"
  shows "m_singleBuffer t' = drop (nat n) (m_singleBuffer t)"
    and "m_singleWritten t' = m_singleWritten t + n"
    and "n > 0 \<Longrightarrow> fs' (m_singleTempPath t) = Some (fileSize fs (m_singleTempPath t) + n)"
    and "m_throttleBytes t' = (if now2 - m_throttleTimer t \<ge> 1000 then 0 else m_throttleBytes t + n)"
    and "m_throttleTimer t' = (if now2 - m_throttleTimer t \<ge> 1000 then now2 else m_throttleTimer t)"
    and "es = Emit (progress (totalDownloaded t') (m_totalSize t'))
              # (if m_singleBuffer t' \<noteq> [] then [SingleShot 10 ProcessSingleBuffer] else [])"
proof -
  let ?w = "wr (min allowed (int (length (m_singleBuffer t))))"
  let ?t2 = "if ?w > 0
             then t\<lparr>m_singleProcessing := True,
                    m_singleBuffer := drop (nat ?w) (m_singleBuffer t),
                    m_throttleBytes := m_throttleBytes t + ?w,
                    m_singleWritten := m_singleWritten t + ?w\<rparr>
             else t\<lparr>m_singleProcessing := True\<rparr>"
  have na: "\<not> allowedBytes t (now1 - m_throttleTimer t) (int (length (m_singleBuffer t))) \<le> 0"
    using assms(5,6) by simp
  have r: "processSingleBuffer t fs now1 wr now2
       = ((resetWindow ?t2 now2)\<lparr>m_singleProcessing := False\<rparr>,
          (if ?w > 0 then fs(m_singleTempPath t \<mapsto> fileSize fs (m_singleTempPath t) + ?w) else fs),
          Emit (progress (totalDownloaded (resetWindow ?t2 now2)) (m_totalSize (resetWindow ?t2 now2)))
          # (if m_singleBuffer (resetWindow ?t2 now2) \<noteq> [] then [SingleShot 10 ProcessSingleBuffer] else []))"
    using assms(1-4) na unfolding processSingleBuffer_def Let_def assms(5)[symmetric]
    by (simp add: assms(5)[symmetric])
  have t': "t' = (resetWindow ?t2 now2)\<lparr>m_singleProcessing := False\<rparr>"
    and fs': "fs' = (if ?w > 0 then fs(m_singleTempPath t \<mapsto> fileSize fs (m_singleTempPath t) + ?w) else fs)"
    and es: "es = Emit (progress (totalDownloaded (resetWindow ?t2 now2)) (m_totalSize (resetWindow ?t2 now2)))
          # (if m_singleBuffer (resetWindow ?t2 now2) \<noteq> [] then [SingleShot 10 ProcessSingleBuffer] else [])"
    using r assms(8) by simp_all
  show "m_singleBuffer t' = drop (nat n) (m_singleBuffer t)"
    unfolding t' assms(7) by (cases "?w > 0") (simp_all add: resetWindow_def)
  show "m_singleWritten t' = m_singleWritten t + n"
    unfolding t' assms(7) by (cases "?w > 0") (simp_all add: resetWindow_def)
  show "n > 0 \<Longrightarrow> fs' (m_singleTempPath t) = Some (fileSize fs (m_singleTempPath t) + n)"
    unfolding fs' assms(7) by (cases "?w > 0") simp_all
  show "m_throttleBytes t' = (if now2 - m_throttleTimer t \<ge> 1000 then 0 else m_throttleBytes t + n)"
    unfolding t' assms(7) by (cases "?w > 0") (simp_all add: resetWindow_def)
  show "m_throttleTimer t' = (if now2 - m_throttleTimer t \<ge> 1000 then now2 else m_throttleTimer t)"
    unfolding t' assms(7) by (cases "?w > 0") (simp_all add: resetWindow_def)
  show "es = Emit (progress (totalDownloaded t') (m_totalSize t'))
              # (if m_singleBuffer t' \<noteq> [] then [SingleShot 10 ProcessSingleBuffer] else [])"
    unfolding t' es by (simp add: totalDownloaded_def)
qed

lemma processSegmentBuffer_blocked:
  assumes "i < length (m_segmentsInfo t)" and "seg_file (m_segmentsInfo t ! i)"
    and "\<not> processing (m_segmentsInfo t ! i)" and "buffer (m_segmentsInfo t ! i) \<noteq> []"
    and "m_state t = Downloading"
    and "allowedBytes t (now1 - m_throttleTimer t) (int (length (buffer (m_segmentsInfo t ! i)))) \<le> 0"
  shows "processSegmentBuffer t i fs now1 wr now2 = (t, fs, [SingleShot 50 (ProcessSegmentBuffer i)])"
  using assms by (simp add: processSegmentBuffer_def Let_def)

lemma processSegmentBuffer_writes:
  assumes "i < length (m_segmentsInfo t)" and "seg_file (m_segmentsInfo t ! i)"
    and "\<not> processing (m_segmentsInfo t ! i)" and "buffer (m_segmentsInfo t ! i) \<noteq> []"
    and "m_state t = Downloading"
    and "allowed = allowedBytes t (now1 - m_throttleTimer t) (int (length (buffer (m_segmentsInfo t ! i))))"
    and "allowed > 0"
    and "n = max 0 (wr (min allowed (int (length (buffer (m_segmentsInfo t ! i))))))"
    and "processSegmentBuffer t i fs now1 wr now2 = (t', fs', es)"
  shows "buffer (m_segmentsInfo t' ! i) = drop (nat n) (buffer (m_segmentsInfo t ! i))"
    and "downloaded (m_segmentsInfo t' ! i) = downloaded (m_segmentsInfo t ! i) + n"
    and "n > 0 \<Longrightarrow> fs' (tempFilePath (m_segmentsInfo t ! i))
                    = Some (fileSize fs (tempFilePath (m_segmentsInfo t ! i)) + n)"
    and "m_throttleBytes t' = (if now2 - m_throttleTimer t \<ge> 1000 then 0 else m_throttleBytes t + n)"
    and "m_throttleTimer t' = (if now2 - m_throttleTimer t \<ge> 1000 then now2 else m_throttleTimer t)"
    and "es = Emit (progress (totalDownloaded t') (m_totalSize t'))
              # (if buffer (m_segmentsInfo t' ! i) \<noteq> [] then [SingleShot 10 (ProcessSegmentBuffer i)] else [])"
proof -
  let ?s = "m_segmentsInfo t ! i"
  let ?w = "wr (min allowed (int (length (buffer ?s))))"
  let ?s1 = "if ?w > 0 then ?s\<lparr>buffer := drop (nat ?w) (buffer ?s), downloaded := downloaded ?s + ?w\<rparr>
             else ?s"
  let ?t1 = "if ?w > 0 then t\<lparr>m_throttleBytes := m_throttleBytes t + ?w\<rparr> else t"
  let ?t2 = "resetWindow (?t1\<lparr>m_segmentsInfo := (m_segmentsInfo ?t1)[i := ?s1]\<rparr>) now2"
  have na: "\<not> allowedBytes t (now1 - m_throttleTimer t) (int (length (buffer ?s))) \<le> 0"
    using assms(6,7) by simp
  have r: "processSegmentBuffer t i fs now1 wr now2
       = (?t2,
          (if ?w > 0 then fs(tempFilePath ?s \<mapsto> fileSize fs (tempFilePath ?s) + ?w) else fs),
          Emit (progress (totalDownloaded ?t2) (m_totalSize ?t2))
          # (if buffer ?s1 \<noteq> [] then [SingleShot 10 (ProcessSegmentBuffer i)] else []))"
    using assms(1-5) na unfolding processSegmentBuffer_def Let_def
    by (simp add: assms(6)[symmetric])
  have t': "t' = ?t2"
    and fs': "fs' = (if ?w > 0 then fs(tempFilePath ?s \<mapsto> fileSize fs (tempFilePath ?s) + ?w) else fs)"
    and es: "es = Emit (progress (totalDownloaded ?t2) (m_totalSize ?t2))
          # (if buffer ?s1 \<noteq> [] then [SingleShot 10 (ProcessSegmentBuffer i)] else [])"
    using r assms(9) by simp_all
  have seg: "m_segmentsInfo t' ! i = ?s1"
    unfolding t' using assms(1) by (cases "?w > 0") (simp_all add: resetWindow_def)
  show "buffer (m_segmentsInfo t' ! i) = drop (nat n) (buffer ?s)"
    unfolding seg assms(8) by (cases "?w > 0") simp_all
  show "downloaded (m_segmentsInfo t' ! i) = downloaded ?s + n"
    unfolding seg assms(8) by (cases "?w > 0") simp_all
  show "n > 0 \<Longrightarrow> fs' (tempFilePath ?s) = Some (fileSize fs (tempFilePath ?s) + n)"
    unfolding fs' assms(8) by (cases "?w > 0") simp_all
  show "m_throttleBytes t' = (if now2 - m_throttleTimer t \<ge> 1000 then 0 else m_throttleBytes t + n)"
    unfolding t' assms(8) by (cases "?w > 0") (simp_all add: resetWindow_def)
  show "m_throttleTimer t' = (if now2 - m_throttleTimer t \<ge> 1000 then now2 else m_throttleTimer t)"
    unfolding t' assms(8) by (cases "?w > 0") (simp_all add: resetWindow_def)
  show "es = Emit (progress (totalDownloaded t') (m_totalSize t'))
              # (if buffer (m_segmentsInfo t' ! i) \<noteq> [] then [SingleShot 10 (ProcessSegmentBuffer i)] else [])"
    unfolding seg unfolding t' es by simp
qed

text \<open>
  C5, as the code has it. The budget of a run is the whole buffer when the speed cap is
  not positive, and \<open>maxSpeed * e / 1000 - bytesInWindow\<close> otherwise, where \<open>e\<close> is the
  age of the window in milliseconds with a reading of 0 taken as 1; the formula is the
  exact one whenever the product and the difference fit in 64 bits, and nothing is said
  here about a product that does not. A run that passes the guards of
  its processor and has no budget writes nothing and arms a timer of 50 ms. Otherwise it
  asks the file for min(budget, buffer length) bytes; the bytes the file reports written
  (\<open>n\<close>, nothing when the write fails) leave the buffer and are added to the task's
  counters and to the window counter; a window that is 1000 ms old or more is restarted;
  and a timer of 10 ms is armed exactly when the buffer is still non-empty.
\<close>

theorem throttled_write_processors:
  "(m_maxSpeed t \<le> 0 \<longrightarrow> allowedBytes t e len = len)
   \<and> (m_maxSpeed t > 0 \<and> fits64 (m_maxSpeed t * (if e = 0 then 1 else e))
        \<and> fits64 (tdiv (m_maxSpeed t * (if e = 0 then 1 else e)) 1000 - m_throttleBytes t) \<longrightarrow>
       allowedBytes t e len
         = tdiv (m_maxSpeed t * (if e = 0 then 1 else e)) 1000 - m_throttleBytes t)
   \<and> (m_singleFile t \<and> \<not> m_singleProcessing t \<and> m_singleBuffer t \<noteq> []
        \<and> m_state t = Downloading \<longrightarrow>
       (let len = int (length (m_singleBuffer t));
            allowed = allowedBytes t (now1 - m_throttleTimer t) len;
            n = max 0 (wr (min allowed len));
            old = (now2 - m_throttleTimer t \<ge> 1000);
            r = processSingleBuffer t fs now1 wr now2;
            t' = fst r; fs' = fst (snd r); es = snd (snd r)
        in (allowed \<le> 0 \<longrightarrow>
              t' = t\<lparr>m_singleProcessing := True\<rparr> \<and> fs' = fs
              \<and> es = [SingleShot 50 RetrySingleBuffer])
         \<and> (allowed > 0 \<longrightarrow>
              m_singleBuffer t' = drop (nat n) (m_singleBuffer t)
              \<and> m_singleWritten t' = m_singleWritten t + n
              \<and> (n > 0 \<longrightarrow> fs' (m_singleTempPath t) = Some (fileSize fs (m_singleTempPath t) + n))
              \<and> m_throttleBytes t' = (if old then 0 else m_throttleBytes t + n)
              \<and> m_throttleTimer t' = (if old then now2 else m_throttleTimer t)
              \<and> es = Emit (progress (totalDownloaded t') (m_totalSize t'))
                     # (if m_singleBuffer t' \<noteq> [] then [SingleShot 10 ProcessSingleBuffer] else []))))
   \<and> (i < length (m_segmentsInfo t) \<and> seg_file (m_segmentsInfo t ! i)
        \<and> \<not> processing (m_segmentsInfo t ! i) \<and> buffer (m_segmentsInfo t ! i) \<noteq> []
        \<and> m_state t = Downloading \<longrightarrow>
       (let s = m_segmentsInfo t ! i;
            len = int (length (buffer s));
            allowed = allowedBytes t (now1 - m_throttleTimer t) len;
            n = max 0 (wr (min allowed len));
            old = (now2 - m_throttleTimer t \<ge> 1000);
            r = processSegmentBuffer t i fs now1 wr now2;
            t' = fst r; fs' = fst (snd r); es = snd (snd r);
            s' = m_segmentsInfo t' ! i
        in (allowed \<le> 0 \<longrightarrow>
              t' = t \<and> fs' = fs \<and> es = [SingleShot 50 (ProcessSegmentBuffer i)])
         \<and> (allowed > 0 \<longrightarrow>
              buffer s' = drop (nat n) (buffer s)
              \<and> downloaded s' = downloaded s + n
              \<and> (n > 0 \<longrightarrow> fs' (tempFilePath s) = Some (fileSize fs (tempFilePath s) + n))
              \<and> m_throttleBytes t' = (if old then 0 else m_throttleBytes t + n)
              \<and> m_throttleTimer t' = (if old then now2 else m_throttleTimer t)
              \<and> es = Emit (progress (totalDownloaded t') (m_totalSize t'))
                     # (if buffer s' \<noteq> [] then [SingleShot 10 (ProcessSegmentBuffer i)] else []))))"
proof (intro conjI impI)
  assume "m_maxSpeed t \<le> 0"
  then show "allowedBytes t e len = len" by (rule allowedBytes_unlimited)
next
  assume "m_maxSpeed t > 0 \<and> fits64 (m_maxSpeed t * (if e = 0 then 1 else e))
        \<and> fits64 (tdiv (m_maxSpeed t * (if e = 0 then 1 else e)) 1000 - m_throttleBytes t)"
  then show "allowedBytes t e len
         = tdiv (m_maxSpeed t * (if e = 0 then 1 else e)) 1000 - m_throttleBytes t"
    by (intro allowedBytes_exact) simp_all
next
  assume g: "m_singleFile t \<and> \<not> m_singleProcessing t \<and> m_singleBuffer t \<noteq> []
        \<and> m_state t = Downloading"
  obtain t' fs' es where r: "processSingleBuffer t fs now1 wr now2 = (t', fs', es)"
    by (cases "processSingleBuffer t fs now1 wr now2") auto
  show "(let len = int (length (m_singleBuffer t));
            allowed = allowedBytes t (now1 - m_throttleTimer t) len;
            n = max 0 (wr (min allowed len));
            old = (now2 - m_throttleTimer t \<ge> 1000);
            r = processSingleBuffer t fs now1 wr now2;
            t' = fst r; fs' = fst (snd r); es = snd (snd r)
        in (allowed \<le> 0 \<longrightarrow>
              t' = t\<lparr>m_singleProcessing := True\<rparr> \<and> fs' = fs
              \<and> es = [SingleShot 50 RetrySingleBuffer])
         \<and> (allowed > 0 \<longrightarrow>
              m_singleBuffer t' = drop (nat n) (m_singleBuffer t)
              \<and> m_singleWritten t' = m_singleWritten t + n
              \<and> (n > 0 \<longrightarrow> fs' (m_singleTempPath t) = Some (fileSize fs (m_singleTempPath t) + n))
              \<and> m_throttleBytes t' = (if old then 0 else m_throttleBytes t + n)
              \<and> m_throttleTimer t' = (if old then now2 else m_throttleTimer t)
              \<and> es = Emit (progress (totalDownloaded t') (m_totalSize t'))
                     # (if m_singleBuffer t' \<noteq> [] then [SingleShot 10 ProcessSingleBuffer] else [])))"
    unfolding Let_def r fst_conv snd_conv
  proof (intro conjI impI)
    assume "allowedBytes t (now1 - m_throttleTimer t) (int (length (m_singleBuffer t))) \<le> 0"
    with g r processSingleBuffer_blocked[of t now1 fs wr now2]
    show "t' = t\<lparr>m_singleProcessing := True\<rparr>" and "fs' = fs"
      and "es = [SingleShot 50 RetrySingleBuffer]" by simp_all
  next
    assume a: "0 < allowedBytes t (now1 - m_throttleTimer t) (int (length (m_singleBuffer t)))"
    note w = processSingleBuffer_writes[OF _ _ _ _ refl a refl r]
    from g show "m_singleBuffer t' = drop (nat (max 0 (wr (min (allowedBytes t (now1 - m_throttleTimer t) (int (length (m_singleBuffer t)))) (int (length (m_singleBuffer t))))))) (m_singleBuffer t)"
      by (intro w(1)) simp_all
    from g show "m_singleWritten t' = m_singleWritten t + max 0 (wr (min (allowedBytes t (now1 - m_throttleTimer t) (int (length (m_singleBuffer t)))) (int (length (m_singleBuffer t)))))"
      by (intro w(2)) simp_all
    from g show "m_throttleBytes t' = (if 1000 \<le> now2 - m_throttleTimer t then 0 else m_throttleBytes t + max 0 (wr (min (allowedBytes t (now1 - m_throttleTimer t) (int (length (m_singleBuffer t)))) (int (length (m_singleBuffer t))))))"
      by (intro w(4)) simp_all
    from g show "m_throttleTimer t' = (if 1000 \<le> now2 - m_throttleTimer t then now2 else m_throttleTimer t)"
      by (intro w(5)) simp_all
    from g show "es = Emit (progress (totalDownloaded t') (m_totalSize t'))
                     # (if m_singleBuffer t' \<noteq> [] then [SingleShot 10 ProcessSingleBuffer] else [])"
      by (intro w(6)) simp_all
    assume "0 < max 0 (wr (min (allowedBytes t (now1 - m_throttleTimer t) (int (length (m_singleBuffer t)))) (int (length (m_singleBuffer t)))))"
    with g show "fs' (m_singleTempPath t) = Some (fileSize fs (m_singleTempPath t) + max 0 (wr (min (allowedBytes t (now1 - m_throttleTimer t) (int (length (m_singleBuffer t)))) (int (length (m_singleBuffer t))))))"
      by (intro w(3)) simp_all
  qed
next
  assume g: "i < length (m_segmentsInfo t) \<and> seg_file (m_segmentsInfo t ! i)
        \<and> \<not> processing (m_segmentsInfo t ! i) \<and> buffer (m_segmentsInfo t ! i) \<noteq> []
        \<and> m_state t = Downloading"
  obtain t' fs' es where r: "processSegmentBuffer t i fs now1 wr now2 = (t', fs', es)"
    by (cases "processSegmentBuffer t i fs now1 wr now2") auto
  show "(let s = m_segmentsInfo t ! i;
            len = int (length (buffer s));
            allowed = allowedBytes t (now1 - m_throttleTimer t) len;
            n = max 0 (wr (min allowed len));
            old = (now2 - m_throttleTimer t \<ge> 1000);
            r = processSegmentBuffer t i fs now1 wr now2;
            t' = fst r; fs' = fst (snd r); es = snd (snd r);
            s' = m_segmentsInfo t' ! i
        in (allowed \<le> 0 \<longrightarrow>
              t' = t \<and> fs' = fs \<and> es = [SingleShot 50 (ProcessSegmentBuffer i)])
         \<and> (allowed > 0 \<longrightarrow>
              buffer s' = drop (nat n) (buffer s)
              \<and> downloaded s' = downloaded s + n
              \<and> (n > 0 \<longrightarrow> fs' (tempFilePath s) = Some (fileSize fs (tempFilePath s) + n))
              \<and> m_throttleBytes t' = (if old then 0 else m_throttleBytes t + n)
              \<and> m_throttleTimer t' = (if old then now2 else m_throttleTimer t)
              \<and> es = Emit (progress (totalDownloaded t') (m_totalSize t'))
                     # (if buffer s' \<noteq> [] then [SingleShot 10 (ProcessSegmentBuffer i)] else [])))"
    unfolding Let_def r fst_conv snd_conv
  proof (intro conjI impI)
    assume "allowedBytes t (now1 - m_throttleTimer t) (int (length (buffer (m_segmentsInfo t ! i)))) \<le> 0"
    with g r processSegmentBuffer_blocked[of i t now1 fs wr now2]
    show "t' = t" and "fs' = fs"
      and "es = [SingleShot 50 (ProcessSegmentBuffer i)]" by simp_all
  next
    assume a: "0 < allowedBytes t (now1 - m_throttleTimer t) (int (length (buffer (m_segmentsInfo t ! i))))"
    note w = processSegmentBuffer_writes[OF _ _ _ _ _ refl a refl r]
    from g show "buffer (m_segmentsInfo t' ! i) = drop (nat (max 0 (wr (min (allowedBytes t (now1 - m_throttleTimer t) (int (length (buffer (m_segmentsInfo t ! i))))) (int (length (buffer (m_segmentsInfo t ! i)))))))) (buffer (m_segmentsInfo t ! i))"
      by (intro w(1)) simp_all
    from g show "downloaded (m_segmentsInfo t' ! i) = downloaded (m_segmentsInfo t ! i) + max 0 (wr (min (allowedBytes t (now1 - m_throttleTimer t) (int (length (buffer (m_segmentsInfo t ! i))))) (int (length (buffer (m_segmentsInfo t ! i))))))"
      by (intro w(2)) simp_all
    from g show "m_throttleBytes t' = (if 1000 \<le> now2 - m_throttleTimer t then 0 else m_throttleBytes t + max 0 (wr (min (allowedBytes t (now1 - m_throttleTimer t) (int (length (buffer (m_segmentsInfo t ! i))))) (int (length (buffer (m_segmentsInfo t ! i)))))))"
      by (intro w(4)) simp_all
    from g show "m_throttleTimer t' = (if 1000 \<le> now2 - m_throttleTimer t then now2 else m_throttleTimer t)"
      by (intro w(5)) simp_all
    from g show "es = Emit (progress (totalDownloaded t') (m_totalSize t'))
                     # (if buffer (m_segmentsInfo t' ! i) \<noteq> [] then [SingleShot 10 (ProcessSegmentBuffer i)] else [])"
      by (intro w(6)) simp_all
    assume "0 < max 0 (wr (min (allowedBytes t (now1 - m_throttleTimer t) (int (length (buffer (m_segmentsInfo t ! i))))) (int (length (buffer (m_segmentsInfo t ! i))))))"
    with g show "fs' (tempFilePath (m_segmentsInfo t ! i)) = Some (fileSize fs (tempFilePath (m_segmentsInfo t ! i)) + max 0 (wr (min (allowedBytes t (now1 - m_throttleTimer t) (int (length (buffer (m_segmentsInfo t ! i))))) (int (length (buffer (m_segmentsInfo t ! i)))))))"
      by (intro w(3)) simp_all
  qed
qed


theorem throttled_write_processors_witness:
  "allowedBytes exTask 7 5 = 5
   \<and> allowedBytes exSingle 3 5 = 3
   \<and> m_singleBuffer (fst (processSingleBuffer exSingle exDisk 3 (\<lambda>n. n) 3))
     = drop 3 (m_singleBuffer exSingle)
   \<and> m_singleWritten (fst (processSingleBuffer exSingle exDisk 3 (\<lambda>n. n) 3)) = 1003
   \<and> m_throttleBytes (fst (processSingleBuffer exSingle exDisk 3 (\<lambda>n. n) 3)) = 3
   \<and> fst (snd (processSingleBuffer exSingle exDisk 3 (\<lambda>n. n) 3)) (m_singleTempPath exSingle)
       = Some (fileSize exDisk (m_singleTempPath exSingle) + 3)
   \<and> snd (snd (processSingleBuffer (exSingle\<lparr>m_throttleBytes := 10\<rparr>) exDisk 5 (\<lambda>n. n) 5))
       = [SingleShot 50 RetrySingleBuffer]
   \<and> downloaded (m_segmentsInfo (fst (processSegmentBuffer exSegmented 0 exDisk 2000 (\<lambda>n. n) 2000)) ! 0)
       = 105
   \<and> m_throttleTimer (fst (processSegmentBuffer exSegmented 0 exDisk 2000 (\<lambda>n. n) 2000)) = 2000
   \<and> m_throttleBytes (fst (processSegmentBuffer exSegmented 0 exDisk 2000 (\<lambda>n. n) 2000)) = 0"
proof -
  have g1: "m_singleFile exSingle \<and> \<not> m_singleProcessing exSingle \<and> m_singleBuffer exSingle \<noteq> []
              \<and> m_state exSingle = Downloading" by code_simp
  have v1: "allowedBytes exSingle (3 - m_throttleTimer exSingle) (int (length (m_singleBuffer exSingle))) = 3"
    "int (length (m_singleBuffer exSingle)) = 5" "m_singleWritten exSingle = 1000"
    "m_throttleBytes exSingle = 0" "m_throttleTimer exSingle = 0"
    "allowedBytes exSingle 3 5 = 3"
    by code_simp+
  let ?B = "exSingle\<lparr>m_throttleBytes := 10\<rparr>"
  have g2: "m_singleFile ?B \<and> \<not> m_singleProcessing ?B \<and> m_singleBuffer ?B \<noteq> []
              \<and> m_state ?B = Downloading" by code_simp
  have v2: "allowedBytes ?B (5 - m_throttleTimer exSingle) (int (length (m_singleBuffer exSingle))) = -5"
    by code_simp
  have g3: "0 < length (m_segmentsInfo exSegmented) \<and> seg_file (m_segmentsInfo exSegmented ! 0)
        \<and> \<not> processing (m_segmentsInfo exSegmented ! 0) \<and> buffer (m_segmentsInfo exSegmented ! 0) \<noteq> []
        \<and> m_state exSegmented = Downloading" by code_simp
  have v3: "allowedBytes exSegmented (2000 - m_throttleTimer exSegmented)
              (int (length (buffer (m_segmentsInfo exSegmented ! 0)))) = 2000"
    "int (length (buffer (m_segmentsInfo exSegmented ! 0))) = 5"
    "downloaded (m_segmentsInfo exSegmented ! 0) = 100"
    "m_throttleTimer exSegmented = 0"
    "allowedBytes exSegmented 2000 5 = 2000"
    by code_simp+
  note w1 = throttled_write_processors [where t = exSingle and fs = exDisk and ?now1.0 = 3
      and wr = "\<lambda>n. n" and ?now2.0 = 3, unfolded Let_def, THEN conjunct2, THEN conjunct2,
      THEN conjunct1, rule_format, OF g1]
  note w2 = throttled_write_processors [where t = ?B and fs = exDisk and ?now1.0 = 5
      and wr = "\<lambda>n. n" and ?now2.0 = 5, unfolded Let_def, THEN conjunct2, THEN conjunct2,
      THEN conjunct1, rule_format, OF g2]
  note w3 = throttled_write_processors [where t = exSegmented and i = 0 and fs = exDisk
      and ?now1.0 = 2000 and wr = "\<lambda>n. n" and ?now2.0 = 2000, unfolded Let_def,
      THEN conjunct2, THEN conjunct2, THEN conjunct2, rule_format, OF g3]
  have g0: "m_maxSpeed exTask \<le> 0" by code_simp
  have g4: "m_maxSpeed exSingle > 0 \<and> fits64 (m_maxSpeed exSingle * (if (3::int) = 0 then 1 else 3))
      \<and> fits64 (tdiv (m_maxSpeed exSingle * (if (3::int) = 0 then 1 else 3)) 1000
                  - m_throttleBytes exSingle)"
    by code_simp
  have v4: "tdiv (m_maxSpeed exSingle * (if (3::int) = 0 then 1 else 3)) 1000
              - m_throttleBytes exSingle = 3"
    by code_simp
  note w0 = throttled_write_processors [where t = exTask and e = 7 and len = 5,
      THEN conjunct1, rule_format, OF g0]
  note w4 = throttled_write_processors [where t = exSingle and e = 3 and len = 5,
      THEN conjunct2, THEN conjunct1, rule_format, OF g4]
  from w4 v4 have a0: "allowedBytes exSingle 3 5 = 3" by (simp only:)
  from w1 have a: "m_singleBuffer (fst (processSingleBuffer exSingle exDisk 3 (\<lambda>n. n) 3))
     = drop 3 (m_singleBuffer exSingle)"
    and b: "m_singleWritten (fst (processSingleBuffer exSingle exDisk 3 (\<lambda>n. n) 3)) = 1003"
    and c: "m_throttleBytes (fst (processSingleBuffer exSingle exDisk 3 (\<lambda>n. n) 3)) = 3"
    and c': "fst (snd (processSingleBuffer exSingle exDisk 3 (\<lambda>n. n) 3)) (m_singleTempPath exSingle)
       = Some (fileSize exDisk (m_singleTempPath exSingle) + 3)"
    by (simp_all add: v1)
  from w2 have d: "snd (snd (processSingleBuffer ?B exDisk 5 (\<lambda>n. n) 5))
       = [SingleShot 50 RetrySingleBuffer]"
    by (simp add: v2)
  from w3 have e: "downloaded (m_segmentsInfo (fst (processSegmentBuffer exSegmented 0 exDisk 2000 (\<lambda>n. n) 2000)) ! 0)
       = 105"
    and f: "m_throttleTimer (fst (processSegmentBuffer exSegmented 0 exDisk 2000 (\<lambda>n. n) 2000)) = 2000"
    and g: "m_throttleBytes (fst (processSegmentBuffer exSegmented 0 exDisk 2000 (\<lambda>n. n) 2000)) = 0"
    by (simp_all add: v3)
  from w0 a0 a b c c' d e f g show ?thesis by (intro conjI)
qed

text \<open>At a reading of 0 ms with a cap of 1000 bytes per second the formula of the
  specification leaves no budget, yet the processor writes one byte and arms the 10 ms
  timer.\<close>

theorem throttled_write_processors_counterexample:
  "spec_allowed (m_maxSpeed exSingle) (0 - m_throttleTimer exSingle) (m_throttleBytes exSingle)
       (int (length (m_singleBuffer exSingle))) \<le> 0
   \<and> snd (snd (processSingleBuffer exSingle exDisk 0 (\<lambda>n. n) 0)) \<noteq> [SingleShot 50 RetrySingleBuffer]
   \<and> m_singleWritten (fst (processSingleBuffer exSingle exDisk 0 (\<lambda>n. n) 0))
       = m_singleWritten exSingle + 1"
  by code_simp

section \<open>The bytes counted by totalDownloaded\<close>

lemma sum_list_update_le:
  fixes f :: "'a \<Rightarrow> int"
  assumes "i < length xs" and "f (xs ! i) \<le> f x"
  shows "sum_list (map f xs) \<le> sum_list (map f (xs[i := x]))"
  using assms
proof (induction xs arbitrary: i)
  case Nil
  then show ?case by simp
next
  case (Cons a xs)
  then show ?case by (cases i) (auto simp: add_mono)
qed

lemma totalDownloaded_processSingleBuffer:
  "totalDownloaded t \<le> totalDownloaded (fst (processSingleBuffer t fs now1 wr now2))"
  by (simp add: processSingleBuffer_def Let_def totalDownloaded_def resetWindow_def)

lemma totalDownloaded_processSegmentBuffer:
  "totalDownloaded t \<le> totalDownloaded (fst (processSegmentBuffer t i fs now1 wr now2))"
proof (cases "i < length (m_segmentsInfo t)")
  case False
  then show ?thesis by (simp add: processSegmentBuffer_def)
next
  case True
  let ?s = "m_segmentsInfo t ! i"
  let ?w = "wr (min (allowedBytes t (now1 - m_throttleTimer t) (int (length (buffer ?s))))
                    (int (length (buffer ?s))))"
  show ?thesis
  proof (cases "0 < ?w")
    case w: True
    have "sum_list (map downloaded (m_segmentsInfo t))
        \<le> sum_list (map downloaded ((m_segmentsInfo t)
              [i := ?s\<lparr>buffer := drop (nat ?w) (buffer ?s), downloaded := downloaded ?s + ?w\<rparr>]))"
      using True w by (intro sum_list_update_le) simp_all
    with True w show ?thesis
      by (simp add: processSegmentBuffer_def Let_def totalDownloaded_def resetWindow_def)
  next
    case False
    with True show ?thesis
      by (simp add: processSegmentBuffer_def Let_def totalDownloaded_def resetWindow_def)
  qed
qed

lemma totalDownloaded_pause: "totalDownloaded (fst (pause nowMs t)) = totalDownloaded t"
  by (simp add: pause_def Let_def totalDownloaded_def closeSegment_def comp_def)

lemma totalDownloaded_cleanup: "totalDownloaded (fst (cleanup t fs b)) = 0"
  by (simp add: cleanup_def Let_def totalDownloaded_def closeSegment_def comp_def)

lemma singleWritten_reset:
  assumes "m_singleReply t = Some h" and "m_resumeSingle t" and "status \<noteq> 206"
  shows "m_singleWritten (fst (onSingleMetaDataChanged t h status etag lastMod existing ok fs)) = 0"
  using assms
  by (simp add: onSingleMetaDataChanged_def Let_def setResumeWarning_def split_beta)

text \<open>
  C8, as the code has it. \<open>totalDownloaded\<close> never decreases across a run of a write
  processor, and \<open>pause\<close> leaves it as it is. It is not monotone over the life of a task:
  \<open>cleanup\<close> (on cancel, restart and the fall-back to a single stream) sets it to 0, and
  a single stream that was resuming drops its count to 0 when the reply is anything but
  206 (the downgrade on 200 and the rejection on 400 and above).
\<close>

theorem totalDownloaded_steps:
  "totalDownloaded t \<le> totalDownloaded (fst (processSingleBuffer t fs now1 wr now2))
   \<and> totalDownloaded t \<le> totalDownloaded (fst (retrySingleBuffer t fs now1 wr now2))
   \<and> totalDownloaded t \<le> totalDownloaded (fst (processSegmentBuffer t i fs now1 wr now2))
   \<and> totalDownloaded (fst (pause nowMs t)) = totalDownloaded t
   \<and> totalDownloaded (fst (cleanup t fs b)) = 0
   \<and> (m_singleReply t = Some h \<and> m_resumeSingle t \<and> status \<noteq> 206 \<longrightarrow>
        m_singleWritten (fst (onSingleMetaDataChanged t h status etag lastMod existing ok fs)) = 0)"
proof (intro conjI impI)
  show "totalDownloaded t \<le> totalDownloaded (fst (processSingleBuffer t fs now1 wr now2))"
    by (rule totalDownloaded_processSingleBuffer)
  have "totalDownloaded (t\<lparr>m_singleProcessing := False\<rparr>)
          \<le> totalDownloaded (fst (retrySingleBuffer t fs now1 wr now2))"
    unfolding retrySingleBuffer_def by (rule totalDownloaded_processSingleBuffer)
  then show "totalDownloaded t \<le> totalDownloaded (fst (retrySingleBuffer t fs now1 wr now2))"
    by (simp add: totalDownloaded_def)
  show "totalDownloaded t \<le> totalDownloaded (fst (processSegmentBuffer t i fs now1 wr now2))"
    by (rule totalDownloaded_processSegmentBuffer)
  show "totalDownloaded (fst (pause nowMs t)) = totalDownloaded t"
    by (rule totalDownloaded_pause)
  show "totalDownloaded (fst (cleanup t fs b)) = 0"
    by (rule totalDownloaded_cleanup)
next
  assume "m_singleReply t = Some h \<and> m_resumeSingle t \<and> status \<noteq> 206"
  then show "m_singleWritten (fst (onSingleMetaDataChanged t h status etag lastMod existing ok fs)) = 0"
    by (simp add: singleWritten_reset)
qed


theorem totalDownloaded_steps_witness:
  "m_singleWritten exSingle = 1000
   \<and> m_singleWritten (fst (onSingleMetaDataChanged exSingle 7 200 [] [] 1000 True exDisk)) = 0
   \<and> totalDownloaded exSingle
       \<le> totalDownloaded (fst (processSingleBuffer exSingle exDisk 3 (\<lambda>n. n) 3))"
proof -
  have h: "m_singleReply exSingle = Some 7 \<and> m_resumeSingle exSingle \<and> (200::int) \<noteq> 206"
    by code_simp
  have v: "m_singleWritten exSingle = 1000" by code_simp
  note w = totalDownloaded_steps [where t = exSingle and h = 7 and status = 200
      and etag = "[]" and lastMod = "[]" and existing = 1000 and ok = True and fs = exDisk
      and ?now1.0 = 3 and wr = "\<lambda>n. n" and ?now2.0 = 3]
  from w h v show ?thesis by blast
qed

text \<open>A single stream resumed at byte 1000 and answered with 200 counts 0 bytes
  afterwards.\<close>

theorem totalDownloaded_steps_counterexample:
  "m_resumeSingle exSingle
   \<and> totalDownloaded (fst (onSingleMetaDataChanged exSingle 7 200 [] [] 1000 True exDisk))
       < totalDownloaded exSingle
   \<and> totalDownloaded (fst (onSingleMetaDataChanged exSingle 7 416 [] [] 1000 True exDisk))
       < totalDownloaded exSingle"
  by code_simp

section \<open>Mirror failover and retry\<close>

lemma currentUrl_start_fields [simp]:
  "currentUrl (t\<lparr>m_pauseReason := a, m_pausedAt := b, m_throttleTimer := c, m_throttleBytes := d\<rparr>)
     = currentUrl t"
  by (simp add: currentUrl_def)

lemma currentUrl_state [simp]: "currentUrl (t\<lparr>m_state := s\<rparr>) = currentUrl t"
  by (simp add: currentUrl_def)

lemma cleanup_keeps [simp]:
  "currentUrl (fst (cleanup t fs b)) = currentUrl t"
  "m_etag (fst (cleanup t fs b)) = m_etag t"
  "m_lastModified (fst (cleanup t fs b)) = m_lastModified t"
  "m_url (fst (cleanup t fs b)) = m_url t"
  "m_mirrorIndex (fst (cleanup t fs b)) = m_mirrorIndex t"
  "m_retryMax (fst (cleanup t fs b)) = m_retryMax t"
  "m_retryDelaySec (fst (cleanup t fs b)) = m_retryDelaySec t"
  "m_pauseReason (fst (cleanup t fs b)) = m_pauseReason t"
  "m_pausedAt (fst (cleanup t fs b)) = m_pausedAt t"
  by (simp_all add: cleanup_def Let_def currentUrl_def)

lemma start_keeps [simp]:
  "m_etag (fst (start valid now t)) = m_etag t"
  "m_lastModified (fst (start valid now t)) = m_lastModified t"
  "m_url (fst (start valid now t)) = m_url t"
  "m_mirrorIndex (fst (start valid now t)) = m_mirrorIndex t"
  "m_retryMax (fst (start valid now t)) = m_retryMax t"
  "m_retryDelaySec (fst (start valid now t)) = m_retryDelaySec t"
  by (simp_all add: start_def Let_def)








lemma stateString_Error_not_Done [simp]:
  "(''Error'' = ''Done'') = False" "(''Error'' = ''Canceled'') = False"
  by simp_all

lemma retryTimer_signalsOf: "RetryTimer d k \<notin> set (signalsOf i es)"
  by (induction es) (auto simp: signalsOf_def split: effect.splits)

lemma isRetryTimer_signalsOf [simp]: "filter isRetryTimer (signalsOf i es) = []"
  by (induction es) (auto simp: signalsOf_def split: effect.splits)









section \<open>Admission\<close>

lemma filter_update_le:
  "length (filter P (xs[i := x])) \<le> length (filter P xs) + (if P x then 1 else 0)"
proof (induction xs arbitrary: i)
  case Nil
  show ?case by simp
next
  case (Cons a xs)
  show ?case
  proof (cases i)
    case 0
    then show ?thesis by simp
  next
    case (Suc k)
    with Cons.IH[of k] show ?thesis by (auto split: if_splits)
  qed
qed

lemma createQueue_queue [simp]: "m_queue (fst (createQueue fresh m nm)) = m_queue m"
  by (simp add: createQueue_def Let_def)

lemma createQueue_max [simp]:
  "m_maxConcurrent (fst (createQueue fresh m nm)) = m_maxConcurrent m"
  by (simp add: createQueue_def Let_def)

lemma createQueue_default:
  "m_queueOrder m \<noteq> [] \<Longrightarrow>
     m_queueOrder (fst (createQueue fresh m nm)) \<noteq> []
     \<and> defaultQueueName (fst (createQueue fresh m nm)) = defaultQueueName m"
  by (simp add: createQueue_def Let_def defaultQueueName_def)

lemma createQueue_limit [simp]:
  "queueLimit (fst (createQueue fresh m nm)) q = queueLimit m q"
  by (auto simp: createQueue_def Let_def queueLimit_def split: option.splits)

lemma createQueue_events: "\<not> list_ex isFinishedEvent (snd (createQueue fresh m nm))"
  by (simp add: createQueue_def Let_def)

lemma start_admitted:
  assumes "m_state t = Idle" and "valid (currentUrl t)"
  shows "m_state (fst (start valid clock t)) = Downloading"
    and "\<not> emitsFinished (snd (start valid clock t))"
  using assms
  by (simp_all add: start_def Let_def emitsFinished_def)

lemma signalsOf_quiet:
  "\<not> emitsFinished es \<Longrightarrow> \<not> list_ex isFinishedEvent (signalsOf i es)"
proof (induction es)
  case Nil
  show ?case by (simp add: signalsOf_def)
next
  case (Cons e es)
  then have "\<not> isFinishedSignal e" and rest: "\<not> emitsFinished es"
    by (simp_all add: emitsFinished_def)
  from Cons.IH[OF rest] have ih: "\<not> list_ex isFinishedEvent (signalsOf i es)" .
  show ?case
  proof (cases e)
    case (Emit sg)
    with \<open>\<not> isFinishedSignal e\<close> have "\<not> isFinishedEvent (TaskSignal i sg)"
      by (cases sg) simp_all
    with ih Emit show ?thesis by (simp add: signalsOf_def)
  next
    case (SingleShot d c)
    with ih show ?thesis by (simp add: signalsOf_def)
  qed
qed

lemma queueOf_queue_update [simp]: "queueOf (m\<lparr>m_queue := xs\<rparr>) e = queueOf m e"
  by (simp add: queueOf_def defaultQueueName_def split: option.splits)

lemma queueLimit_queue_update [simp]: "queueLimit (m\<lparr>m_queue := xs\<rparr>) q = queueLimit m q"
  by (simp add: queueLimit_def split: option.splits)

lemma queueOf_createQueue:
  "m_queueOrder m \<noteq> [] \<Longrightarrow> queueOf (fst (createQueue fresh m nm)) e = queueOf m e"
  by (simp add: queueOf_def createQueue_default split: option.splits)

lemma running_createQueue:
  assumes "m_queueOrder m \<noteq> []"
  shows "runningCount (fst (createQueue fresh m nm)) = runningCount m"
    and "runningInQueue (fst (createQueue fresh m nm)) q = runningInQueue m q"
  using assms by (simp_all add: runningCount_def runningInQueue_def queueOf_createQueue)

lemma applyTaskSpeed_keeps [simp]:
  "m_state (taskOf (applyTaskSpeed m e)) = m_state (taskOf e)"
  "currentUrl (taskOf (applyTaskSpeed m e)) = currentUrl (taskOf e)"
  "taskQueue (applyTaskSpeed m e) = taskQueue e"
  by (simp_all add: applyTaskSpeed_def Let_def setMaxSpeed_def currentUrl_def)

lemma admitOne_inv:
  assumes len: "i < length (m_queue m)"
    and ord: "m_queueOrder m \<noteq> []"
    and val: "\<forall>e \<in> set (m_queue m). isIdle (taskOf e) \<longrightarrow> valid (currentUrl (taskOf e))"
    and rc: "runningCount m \<le> running"
    and rq: "\<forall>q. runningInQueue m q \<le> rpq q"
    and room: "running < m_maxConcurrent m"
    and lim: "\<forall>q. rpq q \<le> queueLimit m q"
    and one: "admitOne valid clock now fresh i m running rpq = (m', running', rpq', ev)"
  shows "length (m_queue m') = length (m_queue m)
     \<and> m_queueOrder m' \<noteq> []
     \<and> (\<forall>e \<in> set (m_queue m'). isIdle (taskOf e) \<longrightarrow> valid (currentUrl (taskOf e)))
     \<and> runningCount m' \<le> running'
     \<and> (\<forall>q. runningInQueue m' q \<le> rpq' q)
     \<and> running' \<le> m_maxConcurrent m'
     \<and> (\<forall>q. rpq' q \<le> queueLimit m' q)
     \<and> m_maxConcurrent m' = m_maxConcurrent m
     \<and> \<not> list_ex isFinishedEvent ev"
proof -
  define c where "c = m_queue m ! i"
  define qname where "qname = queueOf m c"
  define created where
    "created = (if m_queues m qname = None then createQueue fresh m qname else (m, []))"
  define m1 where "m1 = fst created"
  define c1 where "c1 = applyTaskSpeed m1 c"
  define st where "st = start valid clock (taskOf c1)"
  define new where "new = c1\<lparr>taskOf := fst st\<rparr>"
  define m3 where "m3 = m1\<lparr>m_queue := (m_queue m1)[i := new]\<rparr>"
  have m1_queue: "m_queue m1 = m_queue m" by (simp add: m1_def created_def)
  have m1_max: "m_maxConcurrent m1 = m_maxConcurrent m" by (simp add: m1_def created_def)
  have m1_ord: "m_queueOrder m1 \<noteq> []"
    using ord by (simp add: m1_def created_def createQueue_default)
  have m1_qof: "\<And>e. queueOf m1 e = queueOf m e"
    using ord by (simp add: m1_def created_def queueOf_createQueue)
  have m1_rc: "runningCount m1 = runningCount m"
    using ord by (simp add: m1_def created_def running_createQueue)
  have m1_rq: "\<And>q. runningInQueue m1 q = runningInQueue m q"
    using ord by (simp add: m1_def created_def running_createQueue)
  have m1_lim: "\<And>q. queueLimit m1 q = queueLimit m q" by (simp add: m1_def created_def)
  have m1_ev: "\<not> list_ex isFinishedEvent (snd created)"
    by (simp add: created_def createQueue_events)
  have keep: "length (m_queue m1) = length (m_queue m)
     \<and> m_queueOrder m1 \<noteq> []
     \<and> (\<forall>e \<in> set (m_queue m1). isIdle (taskOf e) \<longrightarrow> valid (currentUrl (taskOf e)))
     \<and> runningCount m1 \<le> running
     \<and> (\<forall>q. runningInQueue m1 q \<le> rpq q)
     \<and> running \<le> m_maxConcurrent m1
     \<and> (\<forall>q. rpq q \<le> queueLimit m1 q)
     \<and> m_maxConcurrent m1 = m_maxConcurrent m
     \<and> \<not> list_ex isFinishedEvent (snd created)"
    unfolding m1_queue m1_max m1_rc m1_rq m1_lim
    using m1_ord val rc rq room lim m1_ev by simp
  show ?thesis
  proof (cases "\<not> isIdle (taskOf c) \<or> (m_pauseOnBattery m \<and> m_onBattery m)")
    case True
    have "admitOne valid clock now fresh i m running rpq = (m, running, rpq, [])"
    proof (cases "isIdle (taskOf c)")
      case False
      then show ?thesis by (simp add: admitOne_def c_def)
    next
      case idle: True
      with True have "m_pauseOnBattery m \<and> m_onBattery m" by simp
      with idle show ?thesis by (simp add: admitOne_def c_def)
    qed
    with one have "m' = m" "running' = running" "rpq' = rpq" "ev = []" by simp_all
    with len ord val rc rq room lim show ?thesis by simp
  next
    case go: False
    have unfold: "admitOne valid clock now fresh i m running rpq =
        (case m_queues m1 qname of
           None \<Rightarrow> (m1, running, rpq, snd created)
         | Some info \<Rightarrow>
             if \<not> isQueueAllowed info now then (m1, running, rpq, snd created)
             else if rpq qname \<ge> (if maxConcurrent info > 0 then maxConcurrent info
                                    else m_maxConcurrent m1)
             then (m1, running, rpq, snd created)
             else (m3, running + 1, rpq(qname := rpq qname + 1),
                   snd created @ signalsOf i (snd st)))"
    proof -
      from go have g1: "isIdle (taskOf (m_queue m ! i)) = True"
        and g2: "(m_pauseOnBattery m \<and> m_onBattery m) = False"
        by (simp_all add: c_def)
      show ?thesis
        by (simp only: admitOne_def Let_def c_def qname_def created_def m1_def c1_def st_def
              new_def m3_def g1 g2 if_True if_False not_True_eq_False)
    qed
    show ?thesis
    proof (cases "m_queues m1 qname")
      case None
      with one have "m' = m1" "running' = running" "rpq' = rpq" "ev = snd created"
        by (simp_all add: unfold)
      with keep show ?thesis by simp
    next
      case (Some info)
      define limit where
        "limit = (if maxConcurrent info > 0 then maxConcurrent info else m_maxConcurrent m1)"
      show ?thesis
      proof (cases "\<not> isQueueAllowed info now \<or> rpq qname \<ge> limit")
        case True
        have "admitOne valid clock now fresh i m running rpq = (m1, running, rpq, snd created)"
        proof (cases "isQueueAllowed info now")
          case False
          then show ?thesis by (simp add: unfold Some)
        next
          case ok: True
          with True have "rpq qname \<ge> limit" by simp
          with ok show ?thesis by (simp add: unfold Some limit_def)
        qed
        with one have "m' = m1" "running' = running" "rpq' = rpq" "ev = snd created"
          by simp_all
        with keep show ?thesis by simp
      next
        case admit: False
        then have a1: "isQueueAllowed info now" and a2: "\<not> rpq qname \<ge> limit" by simp_all
        have "admitOne valid clock now fresh i m running rpq
                = (m3, running + 1, rpq(qname := rpq qname + 1),
                   snd created @ signalsOf i (snd st))"
          using a1 a2 by (simp add: unfold Some limit_def)
        with one have r: "m' = m3" "running' = running + 1"
          "rpq' = rpq(qname := rpq qname + 1)" "ev = snd created @ signalsOf i (snd st)"
          by simp_all
        from go have idle: "m_state (taskOf c) = Idle" by (simp add: isIdle_def)
        from len have "c \<in> set (m_queue m)" by (simp add: c_def)
        with val go have v: "valid (currentUrl (taskOf c))" by blast
        have st1: "m_state (fst st) = Downloading" and quiet: "\<not> emitsFinished (snd st)"
          using idle v by (simp_all add: st_def c1_def start_admitted)
        have newq: "queueOf m new = qname"
          by (simp add: queueOf_def new_def c1_def qname_def)
        have lim': "queueLimit m qname = limit"
          using Some m1_lim[of qname] by (simp add: queueLimit_def limit_def)
        have c1': "length (m_queue m3) = length (m_queue m)" by (simp add: m3_def m1_queue)
        have c2: "m_queueOrder m3 \<noteq> []" using m1_ord by (simp add: m3_def)
        have c3: "\<forall>e \<in> set (m_queue m3). isIdle (taskOf e) \<longrightarrow> valid (currentUrl (taskOf e))"
        proof
          fix e assume "e \<in> set (m_queue m3)"
          then have "e = new \<or> e \<in> set (m_queue m)"
            using set_update_subset_insert[of "m_queue m" i new] by (auto simp: m3_def m1_queue)
          moreover have "\<not> isIdle (taskOf new)" using st1 by (simp add: new_def isIdle_def)
          ultimately show "isIdle (taskOf e) \<longrightarrow> valid (currentUrl (taskOf e))"
            using val by auto
        qed
        have c4: "runningCount m3 \<le> running + 1"
        proof -
          have "runningCount m3 \<le> runningCount m + 1"
            using filter_update_le[of "\<lambda>e. isRunning (taskOf e)" "m_queue m" i new]
            by (simp add: runningCount_def m3_def m1_queue split: if_splits)
          with rc show ?thesis by simp
        qed
        have c5: "\<forall>q. runningInQueue m3 q \<le> (rpq(qname := rpq qname + 1)) q"
        proof
          fix q
          have "runningInQueue m3 q
                  = int (length (filter (\<lambda>e. isRunning (taskOf e) \<and> queueOf m e = q)
                                 ((m_queue m)[i := new])))"
            by (simp add: runningInQueue_def m3_def m1_queue m1_qof)
          also have "\<dots> \<le> runningInQueue m q + (if queueOf m new = q then 1 else 0)"
            using filter_update_le[of "\<lambda>e. isRunning (taskOf e) \<and> queueOf m e = q" "m_queue m" i new]
            by (simp add: runningInQueue_def split: if_splits)
          also have "\<dots> \<le> (rpq(qname := rpq qname + 1)) q"
            using rq newq by auto
          finally show "runningInQueue m3 q \<le> (rpq(qname := rpq qname + 1)) q" .
        qed
        have c6: "running + 1 \<le> m_maxConcurrent m3" using room by (simp add: m3_def m1_max)
        have c7: "\<forall>q. (rpq(qname := rpq qname + 1)) q \<le> queueLimit m3 q"
          using lim lim' a2 by (auto simp: m3_def m1_lim)
        have c8: "m_maxConcurrent m3 = m_maxConcurrent m" by (simp add: m3_def m1_max)
        have c9: "\<not> list_ex isFinishedEvent (snd created @ signalsOf i (snd st))"
          using m1_ev signalsOf_quiet[OF quiet, of i] by simp
        from c1' c2 c3 c4 c5 c6 c7 c8 c9 show ?thesis unfolding r by (intro conjI)
      qed
    qed
  qed
qed


lemma admitLoop_inv:
  assumes "\<forall>i \<in> set js. i < length (m_queue m)"
    and "m_queueOrder m \<noteq> []"
    and "\<forall>e \<in> set (m_queue m). isIdle (taskOf e) \<longrightarrow> valid (currentUrl (taskOf e))"
    and "runningCount m \<le> running"
    and "\<forall>q. runningInQueue m q \<le> rpq q"
    and "running \<le> m_maxConcurrent m"
    and "\<forall>q. rpq q \<le> queueLimit m q"
  shows "runningCount (fst (admitLoop valid clock now fresh js m running rpq))
           \<le> m_maxConcurrent (fst (admitLoop valid clock now fresh js m running rpq))
     \<and> (\<forall>q. runningInQueue (fst (admitLoop valid clock now fresh js m running rpq)) q
              \<le> queueLimit (fst (admitLoop valid clock now fresh js m running rpq)) q)
     \<and> \<not> list_ex isFinishedEvent (snd (admitLoop valid clock now fresh js m running rpq))"
  using assms
proof (induction js arbitrary: m running rpq)
  case Nil
  then show ?case by (simp, meson order_trans)
next
  case (Cons j js)
  show ?case
  proof (cases "running \<ge> m_maxConcurrent m")
    case True
    with Cons.prems show ?thesis by (simp, meson order_trans)
  next
    case False
    obtain m1 r1 rpq1 ev1 where one: "admitOne valid clock now fresh j m running rpq = (m1, r1, rpq1, ev1)"
      by (cases "admitOne valid clock now fresh j m running rpq") auto
    from Cons.prems(1) have j: "j < length (m_queue m)" by simp
    from False have room: "running < m_maxConcurrent m" by simp
    note inv = admitOne_inv[OF j Cons.prems(2) Cons.prems(3) Cons.prems(4) Cons.prems(5) room
                 Cons.prems(7) one]
    from inv Cons.prems(1) have idx: "\<forall>i \<in> set js. i < length (m_queue m1)" by simp
    have ih: "runningCount (fst (admitLoop valid clock now fresh js m1 r1 rpq1))
           \<le> m_maxConcurrent (fst (admitLoop valid clock now fresh js m1 r1 rpq1))
     \<and> (\<forall>q. runningInQueue (fst (admitLoop valid clock now fresh js m1 r1 rpq1)) q
              \<le> queueLimit (fst (admitLoop valid clock now fresh js m1 r1 rpq1)) q)
     \<and> \<not> list_ex isFinishedEvent (snd (admitLoop valid clock now fresh js m1 r1 rpq1))"
      using inv by (intro Cons.IH[OF idx]) simp_all
    from inv have "\<not> list_ex isFinishedEvent ev1" by simp
    with ih False show ?thesis by (simp add: one Let_def)
  qed
qed

text \<open>
  C4, as the code has it. \<open>startQueued\<close> keeps the limits: when the number of running
  tasks is at most \<open>m_maxConcurrent\<close> and, for every queue, the number of running tasks
  of the queue is at most the queue's limit (its \<open>maxConcurrent\<close> when positive, the
  global limit otherwise) before the call, the same holds after it. This is stated for a
  manager with a default queue whose idle tasks have a valid URL, so that no task fails
  inside \<open>start\<close> and no \<open>finished\<close> signal re-enters the manager during the call.
  The limits are not kept at every instant: \<open>resumeTask\<close>, \<open>resumeAll\<close> and
  \<open>togglePause\<close> put paused tasks back into Downloading without consulting them.
\<close>

theorem startQueued_admission:
  assumes "m_queueOrder m \<noteq> []"
    and "\<forall>e \<in> set (m_queue m). isIdle (taskOf e) \<longrightarrow> valid (currentUrl (taskOf e))"
    and "runningCount m \<le> m_maxConcurrent m"
    and "\<forall>q. runningInQueue m q \<le> queueLimit m q"
  shows "runningCount (fst (startQueued valid clock now fresh m))
           \<le> m_maxConcurrent (fst (startQueued valid clock now fresh m))
     \<and> (\<forall>q. runningInQueue (fst (startQueued valid clock now fresh m)) q
              \<le> queueLimit (fst (startQueued valid clock now fresh m)) q)
     \<and> \<not> list_ex isFinishedEvent (snd (startQueued valid clock now fresh m))"
proof -
  have idx: "\<forall>i \<in> set [0..<length (m_queue m)]. i < length (m_queue m)" by simp
  have rc: "runningCount m \<le> runningCount m" by simp
  have rq: "\<forall>q. runningInQueue m q \<le> runningInQueue m q" by simp
  from admitLoop_inv[OF idx assms(1) assms(2) rc rq assms(3) assms(4), of clock now fresh]
  show ?thesis by (simp add: startQueued_def Let_def split_beta)
qed

lemma exAdmission_eval:
  "runningCount (exManager 2 [exEntry Downloading, exEntry Idle, exEntry Idle]) = 1"
  "runningCount (fst (startQueued exValid 0 \<lparr>hour = 12, minute = 0\<rparr> (exQueue False 0 0)
                        (exManager 2 [exEntry Downloading, exEntry Idle, exEntry Idle]))) = 2"
  "m_maxConcurrent (fst (startQueued exValid 0 \<lparr>hour = 12, minute = 0\<rparr> (exQueue False 0 0)
                        (exManager 2 [exEntry Downloading, exEntry Idle, exEntry Idle]))) = 2"
  by code_simp+

theorem startQueued_admission_witness:
  "runningCount (exManager 2 [exEntry Downloading, exEntry Idle, exEntry Idle]) = 1
   \<and> runningCount (fst (startQueued exValid 0 \<lparr>hour = 12, minute = 0\<rparr> (exQueue False 0 0)
                        (exManager 2 [exEntry Downloading, exEntry Idle, exEntry Idle]))) = 2
   \<and> runningCount (fst (startQueued exValid 0 \<lparr>hour = 12, minute = 0\<rparr> (exQueue False 0 0)
                        (exManager 2 [exEntry Downloading, exEntry Idle, exEntry Idle])))
       \<le> m_maxConcurrent (fst (startQueued exValid 0 \<lparr>hour = 12, minute = 0\<rparr> (exQueue False 0 0)
                        (exManager 2 [exEntry Downloading, exEntry Idle, exEntry Idle])))
   \<and> runningInQueue (fst (startQueued exValid 0 \<lparr>hour = 12, minute = 0\<rparr> (exQueue False 0 0)
                        (exManager 2 [exEntry Downloading, exEntry Idle, exEntry Idle]))) ''General''
       \<le> queueLimit (fst (startQueued exValid 0 \<lparr>hour = 12, minute = 0\<rparr> (exQueue False 0 0)
                        (exManager 2 [exEntry Downloading, exEntry Idle, exEntry Idle]))) ''General''"
proof -
  let ?M = "exManager 2 [exEntry Downloading, exEntry Idle, exEntry Idle]"
  have h1: "m_queueOrder ?M \<noteq> []" by code_simp
  have h2: "\<forall>e \<in> set (m_queue ?M). isIdle (taskOf e) \<longrightarrow> exValid (currentUrl (taskOf e))"
    by code_simp
  have h3: "runningCount ?M \<le> m_maxConcurrent ?M" by code_simp
  have h4: "\<forall>q. runningInQueue ?M q \<le> queueLimit ?M q"
    by (simp add: runningInQueue_def queueLimit_def exManager_def exEntry_def exTask_def
          isRunning_def queueOf_def exQueue_def)
  note w = startQueued_admission [OF h1 h2 h3 h4, of 0 "\<lparr>hour = 12, minute = 0\<rparr>" "exQueue False 0 0"]
  from w exAdmission_eval show ?thesis by blast
qed

text \<open>With a global limit of 1 and two paused tasks, \<open>resumeAll\<close> leaves two tasks
  running.\<close>

theorem startQueued_admission_counterexample:
  "runningCount (exManager 1 [exEntry Paused, exEntry Paused]) \<le> 1
   \<and> runningCount (fst (resumeAll exValid 0 \<lparr>hour = 12, minute = 0\<rparr> (exQueue False 0 0)
                           (exManager 1 [exEntry Paused, exEntry Paused]))) = 2
   \<and> m_maxConcurrent (fst (resumeAll exValid 0 \<lparr>hour = 12, minute = 0\<rparr> (exQueue False 0 0)
                           (exManager 1 [exEntry Paused, exEntry Paused]))) = 1"
  by code_simp

section \<open>The name given to a taken path\<close>

text \<open>
  C9. A path that is taken is to come back with \<open>(n)\<close> put before its extension. For a
  name with more than one dot the filter builds the candidate from \<open>completeBaseName\<close>,
  which ends at the last dot, and \<open>completeSuffix\<close>, which starts after the first one,
  so the part of the name between the two dots is written twice: with \<open>/d/a.tar.gz\<close> on
  disk the filter returns \<open>/d/a.tar (1).tar.gz\<close>. On the same disk the free path
  \<open>/d/b.tar.gz\<close> is returned as it is, and the name returned for \<open>/d/a.tar.gz\<close> is a
  fixed point.
\<close>

theorem uniqueFilePath_archive:
  "normalizeFilePath exQt ''/d/a.tar.gz'' = ''/d/a.tar.gz''
   \<and> existsCandidate exArchive ''/d/a.tar.gz''
   \<and> completeBaseName exQt ''/d/a.tar.gz'' = ''a.tar''
   \<and> completeSuffix exQt ''/d/a.tar.gz'' = ''tar.gz''
   \<and> uniqueFilePath exQt exArchive ''/d/a.tar.gz'' = ''/d/a.tar (1).tar.gz''
   \<and> uniqueFilePath exQt exArchive ''/d/b.tar.gz'' = ''/d/b.tar.gz''
   \<and> uniqueFilePath exQt exArchive (uniqueFilePath exQt exArchive ''/d/a.tar.gz'')
       = uniqueFilePath exQt exArchive ''/d/a.tar.gz''"
  by code_simp

end
